theory Spec2Isabelle
  imports Main
begin

section \<open>Listings: data model (backend/listings/models.py)\<close>

text \<open>
  \<^verbatim>\<open>ListingStatus\<close> and \<^verbatim>\<open>ListingCurrency\<close> are the two \<^verbatim>\<open>TextChoices\<close> enumerations
  of the module. Every member is a non-empty string, so a status read back from the
  table is truthy exactly when it is not \<^verbatim>\<open>None\<close>.
\<close>

datatype ListingCurrency = NAD | ZAR

datatype ListingStatus = DRAFT | ACTIVE | SOLD | ARCHIVED

text \<open>The module-level dictionary \<^verbatim>\<open>STATUS_TRANSITIONS\<close>, one key per status.\<close>

definition STATUS_TRANSITIONS :: "ListingStatus \<rightharpoonup> ListingStatus set" where
  "STATUS_TRANSITIONS =
     [DRAFT \<mapsto> {ACTIVE, ARCHIVED},
      ACTIVE \<mapsto> {SOLD, ARCHIVED},
      SOLD \<mapsto> {ARCHIVED},
      ARCHIVED \<mapsto> {}]"

text \<open>
  The fields of the \<^verbatim>\<open>Listing\<close> model. Primary and foreign keys are optional integers
  (\<^verbatim>\<open>None\<close> until assigned), \<^verbatim>\<open>price_amount\<close> is a nullable decimal with two places,
  kept here in hundredths, and every \<^verbatim>\<open>DateTimeField\<close> is a nullable point in time.
\<close>

record Listing =
  pk :: "nat option"
  owner_id :: "nat option"
  title :: string
  description :: string
  category_id :: "nat option"
  region_id :: "nat option"
  city_id :: "nat option"
  price_amount :: "int option"
  currency :: ListingCurrency
  is_negotiable :: bool
  status :: ListingStatus
  created_at :: "nat option"
  updated_at :: "nat option"
  published_at :: "nat option"
  sold_at :: "nat option"
  archived_at :: "nat option"

text \<open>
  \<^verbatim>\<open>Listing(status=s)\<close>: a fresh, unsaved instance in which only the status is given
  and every other field has its declared default.
\<close>

definition Listing_init :: "ListingStatus \<Rightarrow> Listing" where
  "Listing_init s =
     \<lparr>pk = None, owner_id = None, title = [], description = [], category_id = None,
      region_id = None, city_id = None, price_amount = None, currency = NAD,
      is_negotiable = False, status = s, created_at = None, updated_at = None,
      published_at = None, sold_at = None, archived_at = None\<rparr>"

text \<open>
  The stored state the model code reads and writes: the listing table with its
  auto-increment counter, and of the city table the one column that \<^verbatim>\<open>clean\<close>
  reads, the region each city belongs to.
\<close>

record database =
  listing_rows :: "nat \<rightharpoonup> Listing"
  next_listing_pk :: nat
  city_rows :: "nat \<rightharpoonup> nat"

text \<open>
  What a write can raise. A \<^verbatim>\<open>ValidationError\<close> carries the violations it reports:
  \<^item> \<open>InvalidTransition\<close> is \<^verbatim>\<open>{"status": "Invalid status transition."}\<close>,
  \<^item> \<open>ReferentialMismatch\<close> is \<^verbatim>\<open>{"city": "City must belong to the selected region."}\<close>,
  \<^item> \<open>PriceRequired\<close> is \<^verbatim>\<open>{"price_amount": "Price is required for active or sold listings."}\<close>,
  \<^item> \<open>FieldError f\<close> is an error the framework's own validation attaches to field \<open>f\<close>.
\<close>

datatype violation = InvalidTransition | ReferentialMismatch | PriceRequired | FieldError string

datatype error =
    ValidationError "violation list"
  | DoesNotExist
  | IntegrityError
  | PermissionDenied
  | NotFound

text \<open>Python truthiness of a key: neither \<^verbatim>\<open>None\<close> nor \<^verbatim>\<open>0\<close>.\<close>

fun truthy :: "nat option \<Rightarrow> bool" where
  "truthy None = False"
| "truthy (Some k) = (k \<noteq> 0)"

text \<open>The result of an operation reports the given violation.\<close>

fun fails_with :: "violation \<Rightarrow> error + 'a \<Rightarrow> bool" where
  "fails_with v (Inl (ValidationError vs)) = (v \<in> set vs)"
| "fails_with v _ = False"

section \<open>Listings: operations\<close>

text \<open>
  The condition of the first \<^verbatim>\<open>if\<close> of \<^verbatim>\<open>Listing.clean\<close>, evaluated left to right:
  \<^verbatim>\<open>self.city_id and self.region_id and self.city.region_id != self.region_id\<close>.
  Reading \<^verbatim>\<open>self.city\<close> fetches the city row and raises \<^verbatim>\<open>DoesNotExist\<close> when there is none.
\<close>

definition city_region_differs :: "database \<Rightarrow> Listing \<Rightarrow> error + bool" where
  "city_region_differs db self =
     (if \<not> truthy (city_id self) then Inr False
      else if \<not> truthy (region_id self) then Inr False
      else (case city_id self of
              None \<Rightarrow> Inr False
            | Some c \<Rightarrow>
                (case city_rows db c of
                   None \<Rightarrow> Inl DoesNotExist
                 | Some r \<Rightarrow> Inr (Some r \<noteq> region_id self))))"

text \<open>\<^verbatim>\<open>Listing.clean\<close>: each rule raises as soon as it is found violated.\<close>

definition clean :: "database \<Rightarrow> Listing \<Rightarrow> error + unit" where
  "clean db self =
     (case city_region_differs db self of
        Inl e \<Rightarrow> Inl e
      | Inr True \<Rightarrow> Inl (ValidationError [ReferentialMismatch])
      | Inr False \<Rightarrow>
          if status self \<in> {ACTIVE, SOLD} \<and> price_amount self = None
          then Inl (ValidationError [PriceRequired])
          else Inr ())"

text \<open>\<^verbatim>\<open>Listing.can_transition_to\<close>.\<close>

definition can_transition_to :: "Listing \<Rightarrow> ListingStatus \<Rightarrow> bool" where
  "can_transition_to self new_status =
     (if new_status = status self then True
      else new_status \<in> (case STATUS_TRANSITIONS (status self) of
                            None \<Rightarrow> {}
                          | Some succs \<Rightarrow> succs))"

text \<open>\<^verbatim>\<open>x or now\<close> on a nullable point in time (a \<^verbatim>\<open>datetime\<close> is always truthy).\<close>

fun or_now :: "nat option \<Rightarrow> nat \<Rightarrow> nat option" where
  "or_now None now = Some now"
| "or_now (Some t) now = Some t"

text \<open>\<^verbatim>\<open>Listing._apply_status_timestamps\<close>; \<open>now\<close> is the clock value it reads.\<close>

definition apply_status_timestamps :: "nat \<Rightarrow> ListingStatus option \<Rightarrow> Listing \<Rightarrow> Listing" where
  "apply_status_timestamps now previous_status self =
     (let self1 = (if status self = ACTIVE \<and> previous_status \<noteq> Some ACTIVE
                   then self\<lparr>published_at := or_now (published_at self) now\<rparr> else self);
          self2 = (if status self1 = SOLD \<and> previous_status \<noteq> Some SOLD
                   then self1\<lparr>sold_at := or_now (sold_at self1) now\<rparr> else self1)
      in (if status self2 = ARCHIVED \<and> previous_status \<noteq> Some ARCHIVED
          then self2\<lparr>archived_at := or_now (archived_at self2) now\<rparr> else self2))"

text \<open>
  \<^verbatim>\<open>Model.full_clean\<close> belongs to the framework. It runs the framework's own field,
  uniqueness and constraint validation and the model's \<^verbatim>\<open>clean\<close>, and merges every
  \<^verbatim>\<open>ValidationError\<close> raised into one; any other exception of \<^verbatim>\<open>clean\<close> passes through.
  The framework's part is the parameter \<open>fw\<close>: the fields it rejects for the instance.
\<close>

definition full_clean :: "(Listing \<Rightarrow> string list) \<Rightarrow> database \<Rightarrow> Listing \<Rightarrow> error + unit" where
  "full_clean fw db self =
     (case clean db self of
        Inl (ValidationError vs) \<Rightarrow> Inl (ValidationError (map FieldError (fw self) @ vs))
      | Inl e \<Rightarrow> Inl e
      | Inr u \<Rightarrow>
          if fw self = [] then Inr ()
          else Inl (ValidationError (map FieldError (fw self))))"

text \<open>The check constraint \<^verbatim>\<open>listing_price_non_negative\<close> of \<^verbatim>\<open>Listing.Meta\<close>.\<close>

definition listing_price_non_negative :: "Listing \<Rightarrow> bool" where
  "listing_price_non_negative self =
     (case price_amount self of None \<Rightarrow> True | Some p \<Rightarrow> p \<ge> 0)"

text \<open>
  \<^verbatim>\<open>super().save()\<close>: the framework writes the row. \<^verbatim>\<open>updated_at\<close> (\<^verbatim>\<open>auto_now\<close>) is
  refreshed, \<^verbatim>\<open>created_at\<close> (\<^verbatim>\<open>auto_now_add\<close>) is set when the row is inserted, the
  table refuses a row that breaks the check constraint, an instance without a
  key receives the next one, and the counter stays above every key stored.
  \<open>now\<close> is the clock value read for the two fields.
\<close>

definition Model_save :: "nat \<Rightarrow> Listing \<Rightarrow> database \<Rightarrow> (error + unit) \<times> Listing \<times> database" where
  "Model_save now self db =
     (let adding = (case pk self of None \<Rightarrow> True | Some k \<Rightarrow> listing_rows db k = None);
          self1 = self\<lparr>created_at := (if adding then Some now else created_at self),
                       updated_at := Some now\<rparr>
      in if \<not> listing_price_non_negative self1 then (Inl IntegrityError, self1, db)
         else (case pk self1 of
                 Some k \<Rightarrow>
                   (Inr (), self1,
                    db\<lparr>listing_rows := (listing_rows db)(k \<mapsto> self1),
                       next_listing_pk := max (next_listing_pk db) (Suc k)\<rparr>)
               | None \<Rightarrow>
                   (let k = next_listing_pk db; self2 = self1\<lparr>pk := Some k\<rparr>
                    in (Inr (), self2,
                        db\<lparr>listing_rows := (listing_rows db)(k \<mapsto> self2),
                           next_listing_pk := Suc k\<rparr>))))"

text \<open>
  The lookup \<^verbatim>\<open>Listing.objects.filter(pk=self.pk).values_list("status", flat=True).first()\<close>:
  the stored status of the row with the instance's key, \<^verbatim>\<open>None\<close> when there is no such row.
\<close>

definition stored_status :: "database \<Rightarrow> Listing \<Rightarrow> ListingStatus option" where
  "stored_status db self =
     (case pk self of None \<Rightarrow> None | Some k \<Rightarrow> map_option status (listing_rows db k))"

text \<open>
  The first three lines of \<^verbatim>\<open>Listing.save\<close>: \<^verbatim>\<open>previous_status\<close> is \<^verbatim>\<open>None\<close>, and when
  the key is truthy it is what the lookup returns.
\<close>

definition previous_status_of :: "database \<Rightarrow> Listing \<Rightarrow> ListingStatus option" where
  "previous_status_of db self = (if truthy (pk self) then stored_status db self else None)"

text \<open>
  \<^verbatim>\<open>Listing.save\<close>. The result is the outcome together with the instance and the
  stored state as the call leaves them; \<open>now\<close> and \<open>now'\<close> are the two clock readings
  (in \<^verbatim>\<open>_apply_status_timestamps\<close> and in \<^verbatim>\<open>super().save()\<close>).
\<close>

definition save ::
  "(Listing \<Rightarrow> string list) \<Rightarrow> nat \<Rightarrow> nat \<Rightarrow> Listing \<Rightarrow> database
     \<Rightarrow> (error + unit) \<times> Listing \<times> database" where
  "save fw now now' self db =
     (let previous_status = previous_status_of db self;
          invalid =
            (if truthy (pk self)
             then (case previous_status of
                     None \<Rightarrow> False
                   | Some p \<Rightarrow>
                       p \<noteq> status self
                       \<and> \<not> can_transition_to (Listing_init p) (status self))
             else status self \<noteq> DRAFT
                  \<and> \<not> can_transition_to (Listing_init DRAFT) (status self))
      in if invalid then (Inl (ValidationError [InvalidTransition]), self, db)
         else (case full_clean fw db self of
                 Inl e \<Rightarrow> (Inl e, self, db)
               | Inr u \<Rightarrow>
                   Model_save now' (apply_status_timestamps now previous_status self) db))"

section \<open>Listing images: data model and table (backend/listings/models.py)\<close>

text \<open>
  The fields of the \<^verbatim>\<open>ListingImage\<close> model; \<open>image_pk\<close> is the row's \<^verbatim>\<open>id\<close> and
  \<open>image_created_at\<close> its \<^verbatim>\<open>created_at\<close>. The table keeps the rows in insertion order
  together with its auto-increment counter.
\<close>

record ListingImage =
  image_pk :: "nat option"
  listing_id :: nat
  image :: string
  sort_order :: nat
  is_primary :: bool
  image_created_at :: "nat option"

record image_table =
  image_rows :: "ListingImage list"
  next_image_pk :: nat

text \<open>
  The constraint \<^verbatim>\<open>unique_primary_listing_image\<close> of \<^verbatim>\<open>ListingImage.Meta\<close>: a unique index over
  \<^verbatim>\<open>listing\<close> restricted to the rows with \<^verbatim>\<open>is_primary=True\<close>. The table
  accepts row \<open>r\<close> beside the rows it holds under other keys exactly when this holds.
\<close>

definition unique_primary_listing_image :: "ListingImage list \<Rightarrow> ListingImage \<Rightarrow> bool" where
  "unique_primary_listing_image rows r =
     (\<not> (is_primary r
         \<and> list_ex (\<lambda>r'. image_pk r' \<noteq> image_pk r \<and> listing_id r' = listing_id r
                          \<and> is_primary r') rows))"

text \<open>
  Saving an image (the model has no \<^verbatim>\<open>save\<close> of its own, so this is the framework's):
  a row whose key is found is updated in place, any other row is inserted, with the
  next key when it has none, and \<^verbatim>\<open>created_at\<close> is set on insertion. The table refuses
  the write when the constraint would be broken, and is then left as it was.
\<close>

definition ListingImage_save ::
  "nat \<Rightarrow> ListingImage \<Rightarrow> image_table \<Rightarrow> (error + unit) \<times> ListingImage \<times> image_table" where
  "ListingImage_save now self tbl =
     (case image_pk self of
        Some k \<Rightarrow>
          if list_ex (\<lambda>r. image_pk r = Some k) (image_rows tbl)
          then if unique_primary_listing_image (image_rows tbl) self
               then (Inr (), self,
                     tbl\<lparr>image_rows :=
                           map (\<lambda>r. if image_pk r = Some k then self else r) (image_rows tbl)\<rparr>)
               else (Inl IntegrityError, self, tbl)
          else (let self1 = self\<lparr>image_created_at := Some now\<rparr>
                in if unique_primary_listing_image (image_rows tbl) self1
                   then (Inr (), self1,
                         tbl\<lparr>image_rows := image_rows tbl @ [self1],
                             next_image_pk := max (next_image_pk tbl) (Suc k)\<rparr>)
                   else (Inl IntegrityError, self1, tbl))
      | None \<Rightarrow>
          (let self1 = self\<lparr>image_created_at := Some now\<rparr>;
               self2 = self1\<lparr>image_pk := Some (next_image_pk tbl)\<rparr>
           in if unique_primary_listing_image (image_rows tbl) self2
              then (Inr (), self2,
                    tbl\<lparr>image_rows := image_rows tbl @ [self2],
                        next_image_pk := Suc (next_image_pk tbl)\<rparr>)
              else (Inl IntegrityError, self1, tbl)))"

text \<open>
  The invariant of the data model: of the images of any one listing, at most one has
  \<^verbatim>\<open>is_primary\<close> set. \<open>table_ok\<close> says that the keys of the table are distinct and below the
  counter.
\<close>

definition at_most_one_primary :: "ListingImage list \<Rightarrow> bool" where
  "at_most_one_primary rows =
     list_all (\<lambda>r. length (filter (\<lambda>r'. listing_id r' = listing_id r \<and> is_primary r') rows) \<le> 1)
       rows"

fun pk_below :: "nat \<Rightarrow> nat option \<Rightarrow> bool" where
  "pk_below n None = False"
| "pk_below n (Some k) = (k < n)"

definition table_ok :: "image_table \<Rightarrow> bool" where
  "table_ok tbl =
     (distinct (map image_pk (image_rows tbl))
      \<and> list_all (pk_below (next_image_pk tbl)) (map image_pk (image_rows tbl)))"

text \<open>
  Any run of image writes, each with its clock reading, and the table before the
  first write.
\<close>

fun write_images :: "(nat \<times> ListingImage) list \<Rightarrow> image_table \<Rightarrow> image_table" where
  "write_images [] tbl = tbl"
| "write_images ((now, r) # ws) tbl = write_images ws (snd (snd (ListingImage_save now r tbl)))"

definition empty_image_table :: image_table where
  "empty_image_table = \<lparr>image_rows = [], next_image_pk = 1\<rparr>"

section \<open>Listing images: the view set (backend/listings/views.py, serializers.py)\<close>

text \<open>
  The requesting user, and the writable fields of \<^verbatim>\<open>ListingImageSerializer\<close> as a
  request may give them (\<^verbatim>\<open>id\<close> and \<^verbatim>\<open>created_at\<close> are read-only).
\<close>

record User =
  user_id :: nat
  is_staff :: bool

record ListingImageData =
  data_listing :: "nat option"
  data_image :: "string option"
  data_sort_order :: "nat option"
  data_is_primary :: "bool option"

definition serializer_update :: "ListingImage \<Rightarrow> ListingImageData \<Rightarrow> ListingImage" where
  "serializer_update obj d =
     obj\<lparr>listing_id := (case data_listing d of None \<Rightarrow> listing_id obj | Some l \<Rightarrow> l),
         image := (case data_image d of None \<Rightarrow> image obj | Some i \<Rightarrow> i),
         sort_order := (case data_sort_order d of None \<Rightarrow> sort_order obj | Some n \<Rightarrow> n),
         is_primary := (case data_is_primary d of None \<Rightarrow> is_primary obj | Some b \<Rightarrow> b)\<rparr>"

text \<open>
  \<^verbatim>\<open>IsOwnerOrAdmin.has_object_permission\<close> for an image: the owner is taken from the image's
  listing, since an image has no \<^verbatim>\<open>owner_id\<close> of its own. A user of a write request is
  authenticated, hence truthy.
\<close>

definition has_object_permission :: "bool \<Rightarrow> User \<Rightarrow> database \<Rightarrow> ListingImage \<Rightarrow> error + bool" where
  "has_object_permission safe_method user db obj =
     (if safe_method then Inr True
      else (case listing_rows db (listing_id obj) of
              None \<Rightarrow> Inl DoesNotExist
            | Some listing \<Rightarrow> Inr (is_staff user \<or> owner_id listing = Some (user_id user))))"

text \<open>
  \<^verbatim>\<open>ListingImageViewSet.perform_create\<close>; \<open>listing\<close> is the validated listing of the
  request and \<open>data\<close> the unsaved image built from it (so \<open>listing_id data\<close> is the key
  of \<open>listing\<close>).
\<close>

definition perform_create ::
  "User \<Rightarrow> Listing \<Rightarrow> nat \<Rightarrow> ListingImage \<Rightarrow> image_table \<Rightarrow> (error + ListingImage) \<times> image_table" where
  "perform_create user listing now data tbl =
     (if \<not> is_staff user \<and> owner_id listing \<noteq> Some (user_id user)
      then (Inl PermissionDenied, tbl)
      else (case ListingImage_save now data tbl of
              (Inl e, self', tbl') \<Rightarrow> (Inl e, tbl')
            | (Inr u, self', tbl') \<Rightarrow> (Inr self', tbl')))"

text \<open>
  The update the view set inherits from \<^verbatim>\<open>ModelViewSet\<close>: the image is fetched by key
  (404 when there is none), the object permission is checked, the given fields are
  set and the image is saved. No other row is read or written.
\<close>

definition partial_update ::
  "User \<Rightarrow> database \<Rightarrow> nat \<Rightarrow> nat \<Rightarrow> ListingImageData \<Rightarrow> image_table
     \<Rightarrow> (error + ListingImage) \<times> image_table" where
  "partial_update user db now k d tbl =
     (case find (\<lambda>r. image_pk r = Some k) (image_rows tbl) of
        None \<Rightarrow> (Inl NotFound, tbl)
      | Some obj \<Rightarrow>
          (case has_object_permission False user db obj of
             Inl e \<Rightarrow> (Inl e, tbl)
           | Inr False \<Rightarrow> (Inl PermissionDenied, tbl)
           | Inr True \<Rightarrow>
               (case ListingImage_save now (serializer_update obj d) tbl of
                  (Inl e, self', tbl') \<Rightarrow> (Inl e, tbl')
                | (Inr u, self', tbl') \<Rightarrow> (Inr self', tbl'))))"

section \<open>Listings: the view set (backend/listings/views.py, serializers.py)\<close>

text \<open>
  The writable fields of \<^verbatim>\<open>ListingSerializer\<close> as a request may give them: every field but
  \<^verbatim>\<open>id\<close>, \<^verbatim>\<open>owner\<close>, the two bookkeeping times and the three lifecycle timestamps, which
  the serializer declares read-only. A price may be given as null.
\<close>

record ListingData =
  data_title :: "string option"
  data_description :: "string option"
  data_category :: "nat option"
  data_region :: "nat option"
  data_city :: "nat option"
  data_price_amount :: "int option option"
  data_currency :: "ListingCurrency option"
  data_is_negotiable :: "bool option"
  data_status :: "ListingStatus option"

definition ListingSerializer_update :: "Listing \<Rightarrow> ListingData \<Rightarrow> Listing" where
  "ListingSerializer_update obj d =
     obj\<lparr>title := (case data_title d of None \<Rightarrow> title obj | Some x \<Rightarrow> x),
         description := (case data_description d of None \<Rightarrow> description obj | Some x \<Rightarrow> x),
         category_id := (case data_category d of None \<Rightarrow> category_id obj | Some x \<Rightarrow> Some x),
         region_id := (case data_region d of None \<Rightarrow> region_id obj | Some x \<Rightarrow> Some x),
         city_id := (case data_city d of None \<Rightarrow> city_id obj | Some x \<Rightarrow> Some x),
         price_amount := (case data_price_amount d of None \<Rightarrow> price_amount obj | Some x \<Rightarrow> x),
         currency := (case data_currency d of None \<Rightarrow> currency obj | Some x \<Rightarrow> x),
         is_negotiable := (case data_is_negotiable d of None \<Rightarrow> is_negotiable obj | Some x \<Rightarrow> x),
         status := (case data_status d of None \<Rightarrow> status obj | Some x \<Rightarrow> x)\<rparr>"

text \<open>
  \<^verbatim>\<open>IsOwnerOrAdmin.has_object_permission\<close> for a listing: the owner is the listing's own
  \<^verbatim>\<open>owner_id\<close>.
\<close>

definition has_listing_permission :: "bool \<Rightarrow> User \<Rightarrow> Listing \<Rightarrow> bool" where
  "has_listing_permission safe_method user obj =
     (if safe_method then True
      else is_staff user \<or> owner_id obj = Some (user_id user))"

text \<open>
  \<^verbatim>\<open>ListingViewSet.perform_create\<close>, that is \<^verbatim>\<open>serializer.save(owner=self.request.user)\<close>: a new
  instance with the declared defaults, the given fields and the requesting user as
  owner is saved.
\<close>

definition Listing_perform_create ::
  "(Listing \<Rightarrow> string list) \<Rightarrow> User \<Rightarrow> ListingData \<Rightarrow> nat \<Rightarrow> nat \<Rightarrow> database
     \<Rightarrow> (error + Listing) \<times> database" where
  "Listing_perform_create fw user d now now' db =
     (case save fw now now'
             ((ListingSerializer_update (Listing_init DRAFT) d)\<lparr>owner_id := Some (user_id user)\<rparr>) db of
        (Inl e, self', db') \<Rightarrow> (Inl e, db')
      | (Inr u, self', db') \<Rightarrow> (Inr self', db'))"

text \<open>
  The update the view set inherits from \<^verbatim>\<open>ModelViewSet\<close>: the listing is loaded from the
  table by key (404 when there is none), the object permission is checked, the given
  fields are set on the loaded instance and it is saved.
\<close>

definition Listing_partial_update ::
  "(Listing \<Rightarrow> string list) \<Rightarrow> User \<Rightarrow> nat \<Rightarrow> ListingData \<Rightarrow> nat \<Rightarrow> nat \<Rightarrow> database
     \<Rightarrow> (error + Listing) \<times> database" where
  "Listing_partial_update fw user k d now now' db =
     (case listing_rows db k of
        None \<Rightarrow> (Inl NotFound, db)
      | Some obj \<Rightarrow>
          if \<not> has_listing_permission False user obj then (Inl PermissionDenied, db)
          else (case save fw now now' (ListingSerializer_update obj d) db of
                  (Inl e, self', db') \<Rightarrow> (Inl e, db')
                | (Inr u, self', db') \<Rightarrow> (Inr self', db')))"

text \<open>
  Requests handled one after the other, each with the two clock readings of its
  \<^verbatim>\<open>save\<close>. \<open>store_ok\<close> says that every row is stored under its own key and that the keys
  are below the counter.
\<close>

datatype request = CreateListing User ListingData | UpdateListing User nat ListingData

fun handle_request ::
  "(Listing \<Rightarrow> string list) \<Rightarrow> request \<Rightarrow> nat \<Rightarrow> nat \<Rightarrow> database \<Rightarrow> database" where
  "handle_request fw (CreateListing user d) now now' db =
     snd (Listing_perform_create fw user d now now' db)"
| "handle_request fw (UpdateListing user k d) now now' db =
     snd (Listing_partial_update fw user k d now now' db)"

fun handle_requests ::
  "(Listing \<Rightarrow> string list) \<Rightarrow> (request \<times> nat \<times> nat) list \<Rightarrow> database \<Rightarrow> database" where
  "handle_requests fw [] db = db"
| "handle_requests fw ((rq, now, now') # rqs) db =
     handle_requests fw rqs (handle_request fw rq now now' db)"

definition store_ok :: "database \<Rightarrow> bool" where
  "store_ok db = (\<forall>j r. listing_rows db j = Some r \<longrightarrow> pk r = Some j \<and> j < next_listing_pk db)"

text \<open>
  A nullable point in time keeps its value once it is set.
\<close>

definition keeps_set :: "nat option \<Rightarrow> nat option \<Rightarrow> bool" where
  "keeps_set old new = (old \<noteq> None \<longrightarrow> new = old)"

section \<open>Sample data\<close>

text \<open>The framework's validation finding nothing to reject.\<close>

definition no_field_errors :: "Listing \<Rightarrow> string list" where
  "no_field_errors self = []"

text \<open>
  A store with no listing yet and two cities: city 1 lies in region 1, city 2 in
  region 2. \<open>sample_listing\<close> is an unsaved listing of region 1 and city 1 with the
  given status and price, \<open>sample_row\<close> the same listing as stored under key 1, and
  \<open>sample_db_with\<close> the store holding such a row.
\<close>

definition sample_db :: database where
  "sample_db = \<lparr>listing_rows = Map.empty, next_listing_pk = 1, city_rows = [1 \<mapsto> 1, 2 \<mapsto> 2]\<rparr>"

definition sample_listing :: "ListingStatus \<Rightarrow> int option \<Rightarrow> Listing" where
  "sample_listing s p =
     \<lparr>pk = None, owner_id = Some 1, title = ''Bicycle'', description = [],
      category_id = Some 1, region_id = Some 1, city_id = Some 1, price_amount = p,
      currency = NAD, is_negotiable = False, status = s, created_at = None,
      updated_at = None, published_at = None, sold_at = None, archived_at = None\<rparr>"

definition sample_row :: "ListingStatus \<Rightarrow> int option \<Rightarrow> Listing" where
  "sample_row s p = (sample_listing s p)\<lparr>pk := Some 1, created_at := Some 1, updated_at := Some 1\<rparr>"

definition sample_db_with :: "Listing \<Rightarrow> database" where
  "sample_db_with row = sample_db\<lparr>listing_rows := [1 \<mapsto> row], next_listing_pk := 2\<rparr>"

text \<open>
  Two images of listing 1 under keys 1 and 2, the first one primary; the owner of
  the sample listing; and a request that sets \<^verbatim>\<open>is_primary\<close> and nothing else.
\<close>

definition sample_image :: "nat \<Rightarrow> bool \<Rightarrow> ListingImage" where
  "sample_image k p =
     \<lparr>image_pk = Some k, listing_id = 1, image = ''listings/bicycle.jpg'', sort_order = k,
      is_primary = p, image_created_at = Some 1\<rparr>"

definition sample_images :: image_table where
  "sample_images = \<lparr>image_rows = [sample_image 1 True, sample_image 2 False], next_image_pk = 3\<rparr>"

definition sample_owner :: User where
  "sample_owner = \<lparr>user_id = 1, is_staff = False\<rparr>"

definition make_primary :: ListingImageData where
  "make_primary = \<lparr>data_listing = None, data_image = None, data_sort_order = None,
                    data_is_primary = Some True\<rparr>"

text \<open>
  A request that sets the status and nothing else; a store with two listings of the
  sample owner; a table in which image 3 belongs to listing 2; a table without a primary
  image; and a request that moves an image to listing \<open>l\<close> and makes it primary.
\<close>

definition set_status :: "ListingStatus \<Rightarrow> ListingData" where
  "set_status s =
     \<lparr>data_title = None, data_description = None, data_category = None, data_region = None,
      data_city = None, data_price_amount = None, data_currency = None,
      data_is_negotiable = None, data_status = Some s\<rparr>"

definition sample_db_two :: database where
  "sample_db_two =
     sample_db\<lparr>listing_rows := [1 \<mapsto> sample_row ACTIVE (Some 15000),
                                 2 \<mapsto> (sample_row DRAFT None)\<lparr>pk := Some 2\<rparr>],
               next_listing_pk := 3\<rparr>"

definition sample_images_two :: image_table where
  "sample_images_two =
     \<lparr>image_rows = [sample_image 1 True, sample_image 2 False,
                    (sample_image 3 False)\<lparr>listing_id := 2\<rparr>],
      next_image_pk = 4\<rparr>"

definition sample_images_plain :: image_table where
  "sample_images_plain = \<lparr>image_rows = [sample_image 1 False, sample_image 2 False], next_image_pk = 3\<rparr>"

definition make_primary_in :: "nat \<Rightarrow> ListingImageData" where
  "make_primary_in l = \<lparr>data_listing = Some l, data_image = None, data_sort_order = None,
                        data_is_primary = Some True\<rparr>"

section \<open>Helper facts\<close>

lemma transitions_cases:
  "can_transition_to (Listing_init p) s \<longleftrightarrow>
     s = p \<or> (p, s) \<in> {(DRAFT, ACTIVE), (DRAFT, ARCHIVED), (ACTIVE, SOLD),
                       (ACTIVE, ARCHIVED), (SOLD, ARCHIVED)}"
  by (cases p; cases s) (simp_all add: can_transition_to_def Listing_init_def STATUS_TRANSITIONS_def)

lemma city_region_differs_error:
  "city_region_differs db self = Inl e \<Longrightarrow> e = DoesNotExist"
  by (auto simp: city_region_differs_def split: if_splits option.splits)

lemma clean_cases:
  "clean db self = Inr ()
   \<or> clean db self = Inl DoesNotExist
   \<or> clean db self = Inl (ValidationError [ReferentialMismatch])
   \<or> clean db self = Inl (ValidationError [PriceRequired])"
  by (auto simp: clean_def split: sum.splits bool.splits dest: city_region_differs_error)

lemma full_clean_not_invalid_transition:
  "\<not> fails_with InvalidTransition (full_clean fw db self)"
  using clean_cases [of db self] by (auto simp: full_clean_def)

lemma Model_save_not_validation:
  "\<not> fails_with v (fst (Model_save now self db))"
  by (simp add: Model_save_def Let_def split: option.splits)

lemma save_not_invalid_after_check:
  "\<not> fails_with InvalidTransition
        (fst (case full_clean fw db self of
                Inl e \<Rightarrow> (Inl e, self, db)
              | Inr u \<Rightarrow> Model_save now self' db))"
  using full_clean_not_invalid_transition [of fw db self]
    Model_save_not_validation [of InvalidTransition now self' db]
  by (cases "full_clean fw db self") simp_all

lemmas sample_defs =
  no_field_errors_def sample_db_def sample_listing_def sample_row_def sample_db_with_def

lemmas save_defs =
  save_def previous_status_of_def stored_status_def full_clean_def clean_def city_region_differs_def
  can_transition_to_def STATUS_TRANSITIONS_def Listing_init_def Model_save_def
  apply_status_timestamps_def listing_price_non_negative_def Let_def

lemma apply_status_timestamps_fields:
  "published_at (apply_status_timestamps now prev self) =
     (if status self = ACTIVE \<and> prev \<noteq> Some ACTIVE then or_now (published_at self) now
      else published_at self)"
  "sold_at (apply_status_timestamps now prev self) =
     (if status self = SOLD \<and> prev \<noteq> Some SOLD then or_now (sold_at self) now
      else sold_at self)"
  "archived_at (apply_status_timestamps now prev self) =
     (if status self = ARCHIVED \<and> prev \<noteq> Some ARCHIVED then or_now (archived_at self) now
      else archived_at self)"
  "status (apply_status_timestamps now prev self) = status self"
  "pk (apply_status_timestamps now prev self) = pk self"
  "price_amount (apply_status_timestamps now prev self) = price_amount self"
  "city_id (apply_status_timestamps now prev self) = city_id self"
  "region_id (apply_status_timestamps now prev self) = region_id self"
  by (simp_all add: apply_status_timestamps_def Let_def)

lemma Model_save_fields:
  "published_at (fst (snd (Model_save now self db))) = published_at self"
  "sold_at (fst (snd (Model_save now self db))) = sold_at self"
  "archived_at (fst (snd (Model_save now self db))) = archived_at self"
  "status (fst (snd (Model_save now self db))) = status self"
  "city_id (fst (snd (Model_save now self db))) = city_id self"
  "region_id (fst (snd (Model_save now self db))) = region_id self"
  by (simp_all add: Model_save_def Let_def split: option.splits)

lemma Model_save_stored:
  "fst (Model_save now self db) = Inr () \<Longrightarrow>
     \<exists>k. pk (fst (snd (Model_save now self db))) = Some k
        \<and> listing_rows (snd (snd (Model_save now self db))) k = Some (fst (snd (Model_save now self db)))"
  by (auto simp: Model_save_def Let_def split: option.splits if_splits)

lemma Model_save_failed:
  "fst (Model_save now self db) = Inl e \<Longrightarrow>
     e = IntegrityError \<and> snd (snd (Model_save now self db)) = db"
  by (auto simp: Model_save_def Let_def split: option.splits if_splits)

lemma Model_save_succeeds:
  "listing_price_non_negative self \<Longrightarrow> fst (Model_save now self db) = Inr ()"
  by (auto simp: Model_save_def Let_def listing_price_non_negative_def split: option.splits)

lemma Model_save_city_rows:
  "city_rows (snd (snd (Model_save now self db))) = city_rows db"
  by (simp add: Model_save_def Let_def split: option.splits)

lemma save_unfold:
  "save fw now now' self db =
     (if (if truthy (pk self)
          then (case previous_status_of db self of
                  None \<Rightarrow> False
                | Some p \<Rightarrow> p \<noteq> status self \<and> \<not> can_transition_to (Listing_init p) (status self))
          else status self \<noteq> DRAFT \<and> \<not> can_transition_to (Listing_init DRAFT) (status self))
      then (Inl (ValidationError [InvalidTransition]), self, db)
      else (case full_clean fw db self of
              Inl e \<Rightarrow> (Inl e, self, db)
            | Inr u \<Rightarrow>
                Model_save now' (apply_status_timestamps now (previous_status_of db self) self) db))"
  by (simp only: save_def Let_def)

lemma save_cases:
  "(save fw now now' self db = (Inl (ValidationError [InvalidTransition]), self, db))
   \<or> (\<exists>e. full_clean fw db self = Inl e \<and> save fw now now' self db = (Inl e, self, db)
         \<and> \<not> fails_with InvalidTransition (fst (save fw now now' self db)))
   \<or> (full_clean fw db self = Inr ()
        \<and> \<not> fails_with InvalidTransition (fst (save fw now now' self db))
        \<and> save fw now now' self db =
            Model_save now' (apply_status_timestamps now (previous_status_of db self) self) db)"
proof -
  let ?prev = "previous_status_of db self"
  let ?invalid = "if truthy (pk self)
          then (case ?prev of
                  None \<Rightarrow> False
                | Some p \<Rightarrow> p \<noteq> status self \<and> \<not> can_transition_to (Listing_init p) (status self))
          else status self \<noteq> DRAFT \<and> \<not> can_transition_to (Listing_init DRAFT) (status self)"
  show ?thesis
  proof (cases ?invalid)
    case True
    have "save fw now now' self db = (Inl (ValidationError [InvalidTransition]), self, db)"
      by (subst save_unfold) (rule if_P [OF True])
    then show ?thesis by simp
  next
    case False
    have s: "save fw now now' self db =
       (case full_clean fw db self of
                 Inl e \<Rightarrow> (Inl e, self, db)
               | Inr u \<Rightarrow>
                   Model_save now' (apply_status_timestamps now ?prev self) db)"
      by (subst save_unfold) (rule if_not_P [OF False])
    show ?thesis
    proof (cases "full_clean fw db self")
      case (Inl e)
      with s full_clean_not_invalid_transition [of fw db self] show ?thesis by simp
    next
      case (Inr u)
      with s Model_save_not_validation
               [where v = InvalidTransition and now = now'
                  and self = "apply_status_timestamps now ?prev self" and db = db]
      show ?thesis by simp
    qed
  qed
qed

lemma save_keeps_set_timestamps:
  "published_at self = Some t \<Longrightarrow> published_at (fst (snd (save fw now now' self db))) = Some t"
  "sold_at self = Some t \<Longrightarrow> sold_at (fst (snd (save fw now now' self db))) = Some t"
  "archived_at self = Some t \<Longrightarrow> archived_at (fst (snd (save fw now now' self db))) = Some t"
  using save_cases [of fw now now' self db]
  by (auto simp: Model_save_fields apply_status_timestamps_fields)

lemma save_success_timestamps:
  assumes "fst (save fw now now' self db) = Inr ()"
  shows "published_at (fst (snd (save fw now now' self db))) =
           (if status self = ACTIVE \<and> previous_status_of db self \<noteq> Some ACTIVE
            then or_now (published_at self) now else published_at self)"
    and "sold_at (fst (snd (save fw now now' self db))) =
           (if status self = SOLD \<and> previous_status_of db self \<noteq> Some SOLD
            then or_now (sold_at self) now else sold_at self)"
    and "archived_at (fst (snd (save fw now now' self db))) =
           (if status self = ARCHIVED \<and> previous_status_of db self \<noteq> Some ARCHIVED
            then or_now (archived_at self) now else archived_at self)"
    and "\<exists>k. pk (fst (snd (save fw now now' self db))) = Some k
           \<and> listing_rows (snd (snd (save fw now now' self db))) k
               = Some (fst (snd (save fw now now' self db)))"
  using assms save_cases [of fw now now' self db]
    Model_save_stored [of now' "apply_status_timestamps now (previous_status_of db self) self" db]
  by (auto simp: Model_save_fields apply_status_timestamps_fields)

lemma clean_price_required_iff:
  "fails_with PriceRequired (clean db self) \<longleftrightarrow>
     city_region_differs db self = Inr False
     \<and> (status self = ACTIVE \<or> status self = SOLD) \<and> price_amount self = None"
  by (auto simp: clean_def split: sum.splits bool.splits dest: city_region_differs_error)

lemma clean_mismatch_iff:
  "fails_with ReferentialMismatch (clean db self) \<longleftrightarrow> city_region_differs db self = Inr True"
  by (auto simp: clean_def split: sum.splits bool.splits dest: city_region_differs_error)

lemma full_clean_reports_clean:
  "v \<in> {ReferentialMismatch, PriceRequired} \<Longrightarrow>
     fails_with v (full_clean fw db self) \<longleftrightarrow> fails_with v (clean db self)"
  using clean_cases [of db self] by (auto simp: full_clean_def)

lemma full_clean_ok:
  "full_clean fw db self = Inr () \<longleftrightarrow> clean db self = Inr () \<and> fw self = []"
  using clean_cases [of db self] by (auto simp: full_clean_def)

lemma save_reports_clean:
  assumes "v \<in> {ReferentialMismatch, PriceRequired}"
  shows "fails_with v (fst (save fw now now' self db)) \<longleftrightarrow>
           \<not> fails_with InvalidTransition (fst (save fw now now' self db))
           \<and> fails_with v (clean db self)"
proof -
  from save_cases [of fw now now' self db]
  consider
    (refused) "save fw now now' self db = (Inl (ValidationError [InvalidTransition]), self, db)"
  | (unclean) e where "full_clean fw db self = Inl e"
      "save fw now now' self db = (Inl e, self, db)"
      "\<not> fails_with InvalidTransition (fst (save fw now now' self db))"
  | (stored) "full_clean fw db self = Inr ()"
      "\<not> fails_with InvalidTransition (fst (save fw now now' self db))"
      "save fw now now' self db =
         Model_save now' (apply_status_timestamps now (previous_status_of db self) self) db"
    by blast
  then show ?thesis
  proof cases
    case refused
    with assms show ?thesis by auto
  next
    case unclean
    with full_clean_reports_clean [OF assms, of fw db self] show ?thesis by simp
  next
    case stored
    from stored(1) have "clean db self = Inr ()" by (simp add: full_clean_ok)
    with stored(2,3) Model_save_not_validation
           [where v = v and now = now'
              and self = "apply_status_timestamps now (previous_status_of db self) self"
              and db = db]
    show ?thesis by simp
  qed
qed

lemma save_failure_state:
  assumes "fst (save fw now now' self db) = Inl e"
  shows "snd (snd (save fw now now' self db)) = db"
    and "e \<noteq> IntegrityError \<Longrightarrow> fst (snd (save fw now now' self db)) = self"
  using assms save_cases [of fw now now' self db]
    Model_save_failed
      [where now = now'
         and self = "apply_status_timestamps now (previous_status_of db self) self"
         and db = db and e = e]
  by auto

lemma save_unclean:
  assumes "clean db self \<noteq> Inr ()"
  shows "\<exists>e. save fw now now' self db = (Inl e, self, db)"
  using assms save_cases [of fw now now' self db] by (auto simp: full_clean_ok)

lemma save_succeeds:
  assumes "\<not> fails_with InvalidTransition (fst (save fw now now' self db))"
    and "clean db self = Inr ()" and "fw self = []" and "listing_price_non_negative self"
  shows "fst (save fw now now' self db) = Inr ()"
proof -
  have "listing_price_non_negative (apply_status_timestamps now (previous_status_of db self) self)"
    using assms(4) by (simp add: listing_price_non_negative_def apply_status_timestamps_fields)
  moreover from assms(2,3) have "full_clean fw db self = Inr ()"
    by (simp add: full_clean_ok)
  ultimately show ?thesis
    using Model_save_succeeds
            [where self = "apply_status_timestamps now (previous_status_of db self) self"
               and now = now' and db = db]
          assms(1) save_cases [of fw now now' self db]
    by auto
qed

lemma draft_to_active_passes:
  assumes "pk self = Some k" and "k \<noteq> 0" and "listing_rows db k = Some row"
    and "status row = DRAFT" and "status self = ACTIVE"
  shows "\<not> fails_with InvalidTransition (fst (save fw now now' self db))"
  using assms save_not_invalid_after_check
          [where fw = fw and db = db and self = self and now = now'
             and self' = "apply_status_timestamps now (Some DRAFT) self"]
  by (simp add: save_def previous_status_of_def stored_status_def transitions_cases)

lemma filter_at_most_one:
  "distinct (map f xs) \<Longrightarrow>
     length (filter P xs) \<le> 1 \<longleftrightarrow> (\<forall>x\<in>set xs. \<forall>y\<in>set xs. P x \<and> P y \<longrightarrow> f x = f y)"
proof (induction xs)
  case Nil
  then show ?case by simp
next
  case (Cons a xs)
  then show ?case
    by (auto simp: filter_empty_conv image_iff)
qed

lemma at_most_one_primary_pairwise:
  assumes "distinct (map image_pk rows)"
  shows "at_most_one_primary rows \<longleftrightarrow>
           (\<forall>x\<in>set rows. \<forall>y\<in>set rows.
              is_primary x \<and> is_primary y \<and> listing_id x = listing_id y \<longrightarrow> image_pk x = image_pk y)"
proof -
  have "at_most_one_primary rows \<longleftrightarrow>
          (\<forall>r\<in>set rows. \<forall>x\<in>set rows. \<forall>y\<in>set rows.
             (listing_id x = listing_id r \<and> is_primary x) \<and> (listing_id y = listing_id r \<and> is_primary y)
               \<longrightarrow> image_pk x = image_pk y)"
    unfolding at_most_one_primary_def list_all_iff
    using filter_at_most_one [OF assms] by simp
  also have "\<dots> \<longleftrightarrow> (\<forall>x\<in>set rows. \<forall>y\<in>set rows.
              is_primary x \<and> is_primary y \<and> listing_id x = listing_id y \<longrightarrow> image_pk x = image_pk y)"
    by (metis)
  finally show ?thesis .
qed

lemma at_most_one_primary_count:
  "at_most_one_primary rows \<longleftrightarrow>
     (\<forall>l. length (filter (\<lambda>r. listing_id r = l \<and> is_primary r) rows) \<le> 1)"
proof
  assume a: "at_most_one_primary rows"
  show "\<forall>l. length (filter (\<lambda>r. listing_id r = l \<and> is_primary r) rows) \<le> 1"
  proof
    fix l
    show "length (filter (\<lambda>r. listing_id r = l \<and> is_primary r) rows) \<le> 1"
    proof (cases "\<exists>r\<in>set rows. listing_id r = l")
      case True
      with a show ?thesis by (auto simp: at_most_one_primary_def list_all_iff)
    next
      case False
      then have "filter (\<lambda>r. listing_id r = l \<and> is_primary r) rows = []"
        by (auto simp: filter_empty_conv)
      then show ?thesis by simp
    qed
  qed
next
  assume "\<forall>l. length (filter (\<lambda>r. listing_id r = l \<and> is_primary r) rows) \<le> 1"
  then show "at_most_one_primary rows"
    by (simp add: at_most_one_primary_def list_all_iff)
qed

lemma unique_primary_iff:
  "unique_primary_listing_image rows r \<longleftrightarrow>
     \<not> (is_primary r \<and> (\<exists>r'\<in>set rows. image_pk r' \<noteq> image_pk r
                             \<and> listing_id r' = listing_id r \<and> is_primary r'))"
  by (simp add: unique_primary_listing_image_def list_ex_iff)

lemma replace_keeps_pks:
  "image_pk self = Some k \<Longrightarrow>
     map image_pk (map (\<lambda>r. if image_pk r = Some k then self else r) rows) = map image_pk rows"
  by (induction rows) auto

lemma append_at_most_one:
  assumes d: "distinct (map image_pk rows)" and fresh: "image_pk r \<notin> image_pk ` set rows"
    and u: "unique_primary_listing_image rows r" and a: "at_most_one_primary rows"
  shows "at_most_one_primary (rows @ [r])"
proof -
  from d fresh have d': "distinct (map image_pk (rows @ [r]))" by simp
  have pw0: "\<forall>x\<in>set rows. \<forall>y\<in>set rows.
      is_primary x \<and> is_primary y \<and> listing_id x = listing_id y \<longrightarrow> image_pk x = image_pk y"
    by (rule iffD1 [OF at_most_one_primary_pairwise [OF d] a])
  have pw: "\<And>x y. x \<in> set rows \<Longrightarrow> y \<in> set rows \<Longrightarrow> is_primary x \<Longrightarrow> is_primary y
      \<Longrightarrow> listing_id x = listing_id y \<Longrightarrow> image_pk x = image_pk y"
    using pw0 by blast
  have nb: "\<And>x. x \<in> set rows \<Longrightarrow> is_primary r \<Longrightarrow> is_primary x \<Longrightarrow> listing_id x = listing_id r
              \<Longrightarrow> False"
  proof -
    fix x assume x: "x \<in> set rows" and h: "is_primary r" "is_primary x" "listing_id x = listing_id r"
    from x fresh have "image_pk x \<noteq> image_pk r" by (metis imageI)
    with x h u show False unfolding unique_primary_iff by blast
  qed
  have "\<forall>x\<in>set (rows @ [r]). \<forall>y\<in>set (rows @ [r]).
      is_primary x \<and> is_primary y \<and> listing_id x = listing_id y \<longrightarrow> image_pk x = image_pk y"
  proof (intro ballI impI)
    fix x y
    assume x: "x \<in> set (rows @ [r])" and y: "y \<in> set (rows @ [r])"
      and h: "is_primary x \<and> is_primary y \<and> listing_id x = listing_id y"
    from x have xc: "x = r \<or> x \<in> set rows" by auto
    from y have yc: "y = r \<or> y \<in> set rows" by auto
    show "image_pk x = image_pk y"
    proof (cases "x = r")
      case xr: True
      show ?thesis
      proof (cases "y = r")
        case True
        with xr show ?thesis by simp
      next
        case False
        with yc have "y \<in> set rows" by simp
        from nb [OF this] h xr have False by simp
        then show ?thesis ..
      qed
    next
      case xr: False
      with xc have xin: "x \<in> set rows" by simp
      show ?thesis
      proof (cases "y = r")
        case True
        from nb [OF xin] h True have False by simp
        then show ?thesis ..
      next
        case False
        with yc have "y \<in> set rows" by simp
        from pw [OF xin this] h show ?thesis by simp
      qed
    qed
  qed
  then show ?thesis by (rule iffD2 [OF at_most_one_primary_pairwise [OF d']])
qed

lemma replace_at_most_one:
  assumes d: "distinct (map image_pk rows)" and k: "image_pk self = Some k"
    and u: "unique_primary_listing_image rows self" and a: "at_most_one_primary rows"
  shows "at_most_one_primary (map (\<lambda>r. if image_pk r = Some k then self else r) rows)"
proof -
  let ?rows' = "map (\<lambda>r. if image_pk r = Some k then self else r) rows"
  from d k have d': "distinct (map image_pk ?rows')" by (simp only: replace_keeps_pks)
  have pw0: "\<forall>x\<in>set rows. \<forall>y\<in>set rows.
      is_primary x \<and> is_primary y \<and> listing_id x = listing_id y \<longrightarrow> image_pk x = image_pk y"
    by (rule iffD1 [OF at_most_one_primary_pairwise [OF d] a])
  have pw: "\<And>x y. x \<in> set rows \<Longrightarrow> y \<in> set rows \<Longrightarrow> is_primary x \<Longrightarrow> is_primary y
      \<Longrightarrow> listing_id x = listing_id y \<Longrightarrow> image_pk x = image_pk y"
    using pw0 by blast
  have nb: "\<And>x. x \<in> set rows \<Longrightarrow> image_pk x \<noteq> Some k \<Longrightarrow> is_primary self \<Longrightarrow> is_primary x
              \<Longrightarrow> listing_id x = listing_id self \<Longrightarrow> False"
    using u k unfolding unique_primary_iff by auto
  have "\<forall>x\<in>set ?rows'. \<forall>y\<in>set ?rows'.
      is_primary x \<and> is_primary y \<and> listing_id x = listing_id y \<longrightarrow> image_pk x = image_pk y"
  proof (intro ballI impI)
    fix x y
    assume x: "x \<in> set ?rows'" and y: "y \<in> set ?rows'"
      and h: "is_primary x \<and> is_primary y \<and> listing_id x = listing_id y"
    from x have xc: "x = self \<or> (x \<in> set rows \<and> image_pk x \<noteq> Some k)" by auto
    from y have yc: "y = self \<or> (y \<in> set rows \<and> image_pk y \<noteq> Some k)" by auto
    show "image_pk x = image_pk y"
    proof (cases "x = self")
      case xs: True
      show ?thesis
      proof (cases "y = self")
        case True
        with xs show ?thesis by simp
      next
        case False
        with yc have "y \<in> set rows" "image_pk y \<noteq> Some k" by simp_all
        from nb [OF this] h xs have False by simp
        then show ?thesis ..
      qed
    next
      case xs: False
      with xc have xin: "x \<in> set rows" "image_pk x \<noteq> Some k" by simp_all
      show ?thesis
      proof (cases "y = self")
        case True
        from nb [OF xin] h True have False by simp
        then show ?thesis ..
      next
        case False
        with yc have "y \<in> set rows" by simp
        from pw [OF xin(1) this] h show ?thesis by simp
      qed
    qed
  qed
  then show ?thesis by (rule iffD2 [OF at_most_one_primary_pairwise [OF d']])
qed

lemma table_ok_pk:
  assumes "table_ok tbl" and "r \<in> set (image_rows tbl)"
  shows "\<exists>k. image_pk r = Some k \<and> k < next_image_pk tbl"
proof -
  from assms have "pk_below (next_image_pk tbl) (image_pk r)"
    by (simp add: table_ok_def list_all_iff)
  then show ?thesis by (cases "image_pk r") simp_all
qed

lemma table_ok_fresh:
  assumes "table_ok tbl"
  shows "Some (next_image_pk tbl) \<notin> image_pk ` set (image_rows tbl)"
proof
  assume "Some (next_image_pk tbl) \<in> image_pk ` set (image_rows tbl)"
  then obtain r where "r \<in> set (image_rows tbl)" "image_pk r = Some (next_image_pk tbl)"
    by force
  with table_ok_pk [OF assms, of r] show False by simp
qed

lemma pk_below_mono: "pk_below m p \<Longrightarrow> m \<le> n \<Longrightarrow> pk_below n p"
  by (cases p) simp_all

lemma table_ok_append:
  assumes "table_ok tbl" and "image_pk r = Some k" and "Some k \<notin> image_pk ` set (image_rows tbl)"
    and "k < n" and "next_image_pk tbl \<le> n"
  shows "table_ok (tbl\<lparr>image_rows := image_rows tbl @ [r], next_image_pk := n\<rparr>)"
  using assms by (auto simp: table_ok_def list_all_iff intro: pk_below_mono)

lemma table_ok_replace:
  assumes "table_ok tbl" and "image_pk self = Some k"
  shows "table_ok (tbl\<lparr>image_rows := map (\<lambda>r. if image_pk r = Some k then self else r) (image_rows tbl)\<rparr>)"
proof -
  have e: "map image_pk (map (\<lambda>r. if image_pk r = Some k then self else r) (image_rows tbl))
             = map image_pk (image_rows tbl)"
    by (rule replace_keeps_pks [OF assms(2)])
  have "image_rows (tbl\<lparr>image_rows := map (\<lambda>r. if image_pk r = Some k then self else r) (image_rows tbl)\<rparr>)
          = map (\<lambda>r. if image_pk r = Some k then self else r) (image_rows tbl)"
    and "next_image_pk (tbl\<lparr>image_rows := map (\<lambda>r. if image_pk r = Some k then self else r) (image_rows tbl)\<rparr>)
          = next_image_pk tbl"
    by simp_all
  with assms(1) e show ?thesis unfolding table_ok_def by (simp only:)
qed

lemma ListingImage_save_new:
  "image_pk self = None \<Longrightarrow>
     ListingImage_save now self tbl =
       (if unique_primary_listing_image (image_rows tbl)
             (self\<lparr>image_created_at := Some now, image_pk := Some (next_image_pk tbl)\<rparr>)
        then (Inr (), self\<lparr>image_created_at := Some now, image_pk := Some (next_image_pk tbl)\<rparr>,
              tbl\<lparr>image_rows := image_rows tbl
                       @ [self\<lparr>image_created_at := Some now, image_pk := Some (next_image_pk tbl)\<rparr>],
                  next_image_pk := Suc (next_image_pk tbl)\<rparr>)
        else (Inl IntegrityError, self\<lparr>image_created_at := Some now\<rparr>, tbl))"
  by (simp add: ListingImage_save_def Let_def)

lemma ListingImage_save_update:
  "image_pk self = Some k \<Longrightarrow> list_ex (\<lambda>r. image_pk r = Some k) (image_rows tbl) \<Longrightarrow>
     ListingImage_save now self tbl =
       (if unique_primary_listing_image (image_rows tbl) self
        then (Inr (), self,
              tbl\<lparr>image_rows := map (\<lambda>r. if image_pk r = Some k then self else r) (image_rows tbl)\<rparr>)
        else (Inl IntegrityError, self, tbl))"
  by (simp add: ListingImage_save_def Let_def)

lemma ListingImage_save_insert:
  "image_pk self = Some k \<Longrightarrow> \<not> list_ex (\<lambda>r. image_pk r = Some k) (image_rows tbl) \<Longrightarrow>
     ListingImage_save now self tbl =
       (if unique_primary_listing_image (image_rows tbl) (self\<lparr>image_created_at := Some now\<rparr>)
        then (Inr (), self\<lparr>image_created_at := Some now\<rparr>,
              tbl\<lparr>image_rows := image_rows tbl @ [self\<lparr>image_created_at := Some now\<rparr>],
                  next_image_pk := max (next_image_pk tbl) (Suc k)\<rparr>)
        else (Inl IntegrityError, self\<lparr>image_created_at := Some now\<rparr>, tbl))"
  by (simp add: ListingImage_save_def Let_def)

lemma ListingImage_save_invariant:
  assumes ok: "table_ok tbl" and a: "at_most_one_primary (image_rows tbl)"
  shows "table_ok (snd (snd (ListingImage_save now self tbl)))
         \<and> at_most_one_primary (image_rows (snd (snd (ListingImage_save now self tbl))))"
proof -
  from ok have d: "distinct (map image_pk (image_rows tbl))" by (simp add: table_ok_def)
  show ?thesis
  proof (cases "image_pk self")
    case None
    let ?s = "self\<lparr>image_created_at := Some now, image_pk := Some (next_image_pk tbl)\<rparr>"
    show ?thesis
    proof (cases "unique_primary_listing_image (image_rows tbl) ?s")
      case True
      have pk: "image_pk ?s = Some (next_image_pk tbl)" by simp
      from table_ok_fresh [OF ok] have fr: "image_pk ?s \<notin> image_pk ` set (image_rows tbl)"
        by simp
      from table_ok_fresh [OF ok]
      have t: "table_ok (tbl\<lparr>image_rows := image_rows tbl @ [?s],
                             next_image_pk := Suc (next_image_pk tbl)\<rparr>)"
        by (intro table_ok_append [OF ok pk]) simp_all
      from append_at_most_one [OF d fr True a] t True show ?thesis
        by (simp add: ListingImage_save_new [OF None])
    next
      case False
      with ok a show ?thesis by (simp add: ListingImage_save_new [OF None])
    qed
  next
    case (Some k)
    show ?thesis
    proof (cases "list_ex (\<lambda>r. image_pk r = Some k) (image_rows tbl)")
      case ex: True
      show ?thesis
      proof (cases "unique_primary_listing_image (image_rows tbl) self")
        case True
        from replace_at_most_one [OF d Some True a] table_ok_replace [OF ok Some] True
        show ?thesis by (simp add: ListingImage_save_update [OF Some ex])
      next
        case False
        with ok a show ?thesis by (simp add: ListingImage_save_update [OF Some ex])
      qed
    next
      case nex: False
      let ?s = "self\<lparr>image_created_at := Some now\<rparr>"
      show ?thesis
      proof (cases "unique_primary_listing_image (image_rows tbl) ?s")
        case True
        from Some have pk: "image_pk ?s = Some k" by simp
        from nex have nin: "Some k \<notin> image_pk ` set (image_rows tbl)"
          by (auto simp: list_ex_iff)
        with pk have fr: "image_pk ?s \<notin> image_pk ` set (image_rows tbl)" by simp
        have t: "table_ok (tbl\<lparr>image_rows := image_rows tbl @ [?s],
                               next_image_pk := max (next_image_pk tbl) (Suc k)\<rparr>)"
          by (intro table_ok_append [OF ok pk nin]) simp_all
        from append_at_most_one [OF d fr True a] t True show ?thesis
          by (simp add: ListingImage_save_insert [OF Some nex])
      next
        case False
        with ok a show ?thesis by (simp add: ListingImage_save_insert [OF Some nex])
      qed
    qed
  qed
qed

lemma unique_new_iff:
  assumes ok: "table_ok tbl" and n: "image_pk self = None"
  shows "unique_primary_listing_image (image_rows tbl)
           (self\<lparr>image_created_at := Some now, image_pk := Some (next_image_pk tbl)\<rparr>)
         \<longleftrightarrow> unique_primary_listing_image (image_rows tbl) self"
proof -
  have "\<And>r. r \<in> set (image_rows tbl) \<Longrightarrow>
          image_pk r \<noteq> Some (next_image_pk tbl) \<and> image_pk r \<noteq> image_pk self"
  proof -
    fix r assume "r \<in> set (image_rows tbl)"
    from table_ok_pk [OF ok this] n
    show "image_pk r \<noteq> Some (next_image_pk tbl) \<and> image_pk r \<noteq> image_pk self" by auto
  qed
  then show ?thesis by (simp add: unique_primary_iff)
qed

lemma unique_created_iff:
  "unique_primary_listing_image rows (self\<lparr>image_created_at := t\<rparr>)
     \<longleftrightarrow> unique_primary_listing_image rows self"
  by (simp add: unique_primary_iff)

lemma ListingImage_save_accepts_iff:
  assumes ok: "table_ok tbl"
  shows "fst (ListingImage_save now self tbl) = Inr ()
           \<longleftrightarrow> unique_primary_listing_image (image_rows tbl) self"
proof (cases "image_pk self")
  case None
  from unique_new_iff [OF ok None, of now] show ?thesis
    by (simp add: ListingImage_save_new [OF None])
next
  case (Some k)
  show ?thesis
  proof (cases "list_ex (\<lambda>r. image_pk r = Some k) (image_rows tbl)")
    case True
    show ?thesis by (simp add: ListingImage_save_update [OF Some True])
  next
    case False
    show ?thesis by (simp add: ListingImage_save_insert [OF Some False] unique_created_iff)
  qed
qed

lemma ListingImage_save_refused:
  assumes "fst (ListingImage_save now self tbl) \<noteq> Inr ()"
  shows "fst (ListingImage_save now self tbl) = Inl IntegrityError
         \<and> snd (snd (ListingImage_save now self tbl)) = tbl"
proof (cases "image_pk self")
  case None
  with assms show ?thesis by (simp add: ListingImage_save_new [OF None] split: if_splits)
next
  case (Some k)
  show ?thesis
  proof (cases "list_ex (\<lambda>r. image_pk r = Some k) (image_rows tbl)")
    case True
    with assms show ?thesis
      by (simp add: ListingImage_save_update [OF Some True] split: if_splits)
  next
    case False
    with assms show ?thesis
      by (simp add: ListingImage_save_insert [OF Some False] split: if_splits)
  qed
qed

lemma ListingImage_save_stored:
  assumes "fst (ListingImage_save now self tbl) = Inr ()"
  shows "fst (snd (ListingImage_save now self tbl))
           \<in> set (image_rows (snd (snd (ListingImage_save now self tbl))))"
proof (cases "image_pk self")
  case None
  with assms show ?thesis by (simp add: ListingImage_save_new [OF None] split: if_splits)
next
  case (Some k)
  show ?thesis
  proof (cases "list_ex (\<lambda>r. image_pk r = Some k) (image_rows tbl)")
    case True
    then obtain r where "r \<in> set (image_rows tbl)" "image_pk r = Some k"
      by (auto simp: list_ex_iff)
    then have "self \<in> (\<lambda>r. if image_pk r = Some k then self else r) ` set (image_rows tbl)"
      by force
    with assms show ?thesis
      by (simp add: ListingImage_save_update [OF Some True] split: if_splits)
  next
    case False
    with assms show ?thesis
      by (simp add: ListingImage_save_insert [OF Some False] split: if_splits)
  qed
qed

lemma write_images_invariant:
  "table_ok tbl \<Longrightarrow> at_most_one_primary (image_rows tbl) \<Longrightarrow>
     table_ok (write_images ws tbl) \<and> at_most_one_primary (image_rows (write_images ws tbl))"
proof (induction ws arbitrary: tbl)
  case Nil
  then show ?case by simp
next
  case (Cons w ws)
  obtain now r where w: "w = (now, r)" by (cases w) auto
  from ListingImage_save_invariant [OF Cons.prems, of now r]
  have "table_ok (snd (snd (ListingImage_save now r tbl)))"
    and "at_most_one_primary (image_rows (snd (snd (ListingImage_save now r tbl))))"
    by simp_all
  from Cons.IH [OF this] w show ?case by simp
qed

lemma empty_image_table_ok:
  "table_ok empty_image_table" "at_most_one_primary (image_rows empty_image_table)"
  by (simp_all add: empty_image_table_def table_ok_def at_most_one_primary_def)

lemmas image_defs =
  sample_image_def sample_images_def sample_owner_def make_primary_def
  partial_update_def has_object_permission_def serializer_update_def
  ListingImage_save_def unique_primary_listing_image_def Let_def
  table_ok_def at_most_one_primary_def

lemma serializer_update_pk: "image_pk (serializer_update obj d) = image_pk obj"
  by (simp add: serializer_update_def)

lemma partial_update_missing:
  "find (\<lambda>r. image_pk r = Some k) (image_rows tbl) = None \<Longrightarrow>
     partial_update user db now k d tbl = (Inl NotFound, tbl)"
  by (simp add: partial_update_def)

lemma partial_update_denied:
  assumes "find (\<lambda>r. image_pk r = Some k) (image_rows tbl) = Some obj"
    and "has_object_permission False user db obj \<noteq> Inr True"
  shows "\<exists>e. partial_update user db now k d tbl = (Inl e, tbl)"
  using assms
  by (cases "has_object_permission False user db obj")
     (auto simp: partial_update_def split: bool.splits)

lemma partial_update_permitted:
  assumes f: "find (\<lambda>r. image_pk r = Some k) (image_rows tbl) = Some obj"
    and p: "has_object_permission False user db obj = Inr True"
  shows "partial_update user db now k d tbl =
           (if unique_primary_listing_image (image_rows tbl) (serializer_update obj d)
            then (Inr (serializer_update obj d),
                  tbl\<lparr>image_rows :=
                        map (\<lambda>r. if image_pk r = Some k then serializer_update obj d else r)
                          (image_rows tbl)\<rparr>)
            else (Inl IntegrityError, tbl))"
proof -
  from f have o: "image_pk obj = Some k" "obj \<in> set (image_rows tbl)"
    by (auto simp: find_Some_iff)
  then have pk: "image_pk (serializer_update obj d) = Some k"
    by (simp add: serializer_update_pk)
  from o have ex: "list_ex (\<lambda>r. image_pk r = Some k) (image_rows tbl)"
    by (auto simp: list_ex_iff)
  from f p show ?thesis
    by (simp add: partial_update_def ListingImage_save_update [OF pk ex])
qed

lemma partial_update_cases:
  "(\<exists>e. partial_update user db now k d tbl = (Inl e, tbl))
   \<or> (\<exists>obj. find (\<lambda>r. image_pk r = Some k) (image_rows tbl) = Some obj
        \<and> unique_primary_listing_image (image_rows tbl) (serializer_update obj d)
        \<and> partial_update user db now k d tbl =
            (Inr (serializer_update obj d),
             tbl\<lparr>image_rows :=
                   map (\<lambda>r. if image_pk r = Some k then serializer_update obj d else r)
                     (image_rows tbl)\<rparr>))"
proof (cases "find (\<lambda>r. image_pk r = Some k) (image_rows tbl)")
  case None
  then show ?thesis by (simp add: partial_update_missing)
next
  case (Some obj)
  show ?thesis
  proof (cases "has_object_permission False user db obj = Inr True")
    case True
    from partial_update_permitted [OF Some True, of now d] Some show ?thesis
      by (cases "unique_primary_listing_image (image_rows tbl) (serializer_update obj d)") simp_all
  next
    case False
    from partial_update_denied [OF Some False] show ?thesis by blast
  qed
qed

lemma perform_create_table:
  "snd (perform_create user listing now data tbl) = tbl
   \<or> snd (perform_create user listing now data tbl) = snd (snd (ListingImage_save now data tbl))"
  by (cases "ListingImage_save now data tbl")
     (auto simp: perform_create_def split: sum.splits)

lemma partial_update_table:
  "snd (partial_update user db now k d tbl) = tbl
   \<or> (\<exists>obj. snd (partial_update user db now k d tbl)
               = snd (snd (ListingImage_save now (serializer_update obj d) tbl)))"
proof (cases "find (\<lambda>r. image_pk r = Some k) (image_rows tbl)")
  case None
  then show ?thesis by (simp add: partial_update_def)
next
  case (Some obj)
  show ?thesis
  proof (cases "has_object_permission False user db obj = Inr True")
    case True
    with Some have "snd (partial_update user db now k d tbl)
               = snd (snd (ListingImage_save now (serializer_update obj d) tbl))"
      by (cases "ListingImage_save now (serializer_update obj d) tbl")
         (auto simp: partial_update_def split: sum.splits)
    then show ?thesis by blast
  next
    case False
    from partial_update_denied [OF Some False, of now d] show ?thesis by auto
  qed
qed

lemma view_writes_invariant:
  assumes "table_ok tbl" and "at_most_one_primary (image_rows tbl)"
  shows "at_most_one_primary (image_rows (snd (perform_create user listing now data tbl)))"
    and "at_most_one_primary (image_rows (snd (partial_update user db now k d tbl)))"
proof -
  from perform_create_table [of user listing now data tbl] assms
    ListingImage_save_invariant [OF assms, of now data]
  show "at_most_one_primary (image_rows (snd (perform_create user listing now data tbl)))"
    by auto
  from partial_update_table [of user db now k d tbl] assms
    ListingImage_save_invariant [OF assms]
  show "at_most_one_primary (image_rows (snd (partial_update user db now k d tbl)))"
    by auto
qed

lemma keeps_set_refl [simp]: "keeps_set x x"
  by (simp add: keeps_set_def)

lemma keeps_set_trans: "keeps_set a b \<Longrightarrow> keeps_set b c \<Longrightarrow> keeps_set a c"
  by (auto simp: keeps_set_def)

lemma keeps_set_or_now: "keeps_set x (or_now x now)"
  by (cases x) (simp_all add: keeps_set_def)

lemma apply_status_timestamps_keeps:
  "keeps_set (published_at self) (published_at (apply_status_timestamps now prev self))"
  "keeps_set (sold_at self) (sold_at (apply_status_timestamps now prev self))"
  "keeps_set (archived_at self) (archived_at (apply_status_timestamps now prev self))"
  by (simp_all add: apply_status_timestamps_fields keeps_set_or_now)

lemma Model_save_rows:
  "snd (snd (Model_save now s db)) = db
   \<or> (\<exists>j. (pk s = Some j \<or> (pk s = None \<and> j = next_listing_pk db))
         \<and> pk (fst (snd (Model_save now s db))) = Some j
         \<and> listing_rows (snd (snd (Model_save now s db)))
             = (listing_rows db)(j \<mapsto> fst (snd (Model_save now s db)))
         \<and> next_listing_pk (snd (snd (Model_save now s db))) = max (next_listing_pk db) (Suc j))"
proof (cases "listing_price_non_negative s")
  case False
  then show ?thesis
    by (simp add: Model_save_def Let_def listing_price_non_negative_def)
next
  case True
  show ?thesis
  proof (cases "pk s")
    case None
    with True show ?thesis
      by (simp add: Model_save_def Let_def listing_price_non_negative_def)
  next
    case (Some j)
    with True show ?thesis
      by (simp add: Model_save_def Let_def listing_price_non_negative_def)
  qed
qed

lemma store_ok_update:
  assumes "store_ok db" and "pk r = Some j"
    and "listing_rows db' = (listing_rows db)(j \<mapsto> r)"
    and "next_listing_pk db' = max (next_listing_pk db) (Suc j)"
  shows "store_ok db'"
  unfolding store_ok_def
proof (intro allI impI)
  fix i x
  assume x: "listing_rows db' i = Some x"
  show "pk x = Some i \<and> i < next_listing_pk db'"
  proof (cases "i = j")
    case True
    with x assms(2,3,4) show ?thesis by (simp add: less_max_iff_disj)
  next
    case False
    with x assms(3) have "listing_rows db i = Some x" by simp
    with assms(1) have "pk x = Some i \<and> i < next_listing_pk db" by (simp add: store_ok_def)
    with assms(4) show ?thesis by (simp add: less_max_iff_disj)
  qed
qed

lemma Model_save_store:
  assumes ok: "store_ok db" and row: "listing_rows db k = Some row"
    and fresh: "pk s = Some k \<Longrightarrow>
                  keeps_set (published_at row) (published_at s)
                  \<and> keeps_set (sold_at row) (sold_at s)
                  \<and> keeps_set (archived_at row) (archived_at s)"
  shows "store_ok (snd (snd (Model_save now s db)))
         \<and> (\<exists>row'. listing_rows (snd (snd (Model_save now s db))) k = Some row'
                \<and> keeps_set (published_at row) (published_at row')
                \<and> keeps_set (sold_at row) (sold_at row')
                \<and> keeps_set (archived_at row) (archived_at row'))"
proof -
  let ?self' = "fst (snd (Model_save now s db))" and ?db' = "snd (snd (Model_save now s db))"
  from Model_save_rows [of now s db] show ?thesis
  proof
    assume "?db' = db"
    with ok row show ?thesis by auto
  next
    assume "\<exists>j. (pk s = Some j \<or> (pk s = None \<and> j = next_listing_pk db))
         \<and> pk ?self' = Some j
         \<and> listing_rows ?db' = (listing_rows db)(j \<mapsto> ?self')
         \<and> next_listing_pk ?db' = max (next_listing_pk db) (Suc j)"
    then obtain j where j: "pk s = Some j \<or> (pk s = None \<and> j = next_listing_pk db)"
      and pk': "pk ?self' = Some j"
      and rows': "listing_rows ?db' = (listing_rows db)(j \<mapsto> ?self')"
      and next': "next_listing_pk ?db' = max (next_listing_pk db) (Suc j)"
      by blast
    from store_ok_update [OF ok pk' rows' next'] have ok': "store_ok ?db'" .
    show ?thesis
    proof (cases "j = k")
      case True
      from ok row have "k < next_listing_pk db" by (simp add: store_ok_def)
      with j True have "pk s = Some k" by auto
      from fresh [OF this] have "keeps_set (published_at row) (published_at ?self')
          \<and> keeps_set (sold_at row) (sold_at ?self')
          \<and> keeps_set (archived_at row) (archived_at ?self')"
        by (simp add: Model_save_fields)
      moreover from rows' True have "listing_rows ?db' k = Some ?self'" by simp
      ultimately show ?thesis using ok' by blast
    next
      case False
      with rows' row have "listing_rows ?db' k = Some row" by simp
      with ok' show ?thesis by auto
    qed
  qed
qed

lemma save_store:
  assumes ok: "store_ok db" and row: "listing_rows db k = Some row"
    and fresh: "pk self = Some k \<Longrightarrow>
                  keeps_set (published_at row) (published_at self)
                  \<and> keeps_set (sold_at row) (sold_at self)
                  \<and> keeps_set (archived_at row) (archived_at self)"
  shows "store_ok (snd (snd (save fw now now' self db)))
         \<and> (\<exists>row'. listing_rows (snd (snd (save fw now now' self db))) k = Some row'
                \<and> keeps_set (published_at row) (published_at row')
                \<and> keeps_set (sold_at row) (sold_at row')
                \<and> keeps_set (archived_at row) (archived_at row'))"
proof -
  let ?s = "apply_status_timestamps now (previous_status_of db self) self"
  have unchanged: "snd (snd (save fw now now' self db)) = db \<Longrightarrow> ?thesis"
    using ok row by auto
  have "pk ?s = Some k \<Longrightarrow>
          keeps_set (published_at row) (published_at ?s)
          \<and> keeps_set (sold_at row) (sold_at ?s)
          \<and> keeps_set (archived_at row) (archived_at ?s)"
  proof -
    assume "pk ?s = Some k"
    then have "pk self = Some k" by (simp add: apply_status_timestamps_fields)
    from fresh [OF this] apply_status_timestamps_keeps [of self now "previous_status_of db self"]
    show ?thesis by (blast intro: keeps_set_trans)
  qed
  from Model_save_store [OF ok row this, of now']
  have stored: "save fw now now' self db = Model_save now' ?s db \<Longrightarrow> ?thesis"
    by simp
  from save_cases [of fw now now' self db] unchanged stored show ?thesis
    by auto
qed

lemma ListingSerializer_update_fields:
  "pk (ListingSerializer_update obj d) = pk obj"
  "published_at (ListingSerializer_update obj d) = published_at obj"
  "sold_at (ListingSerializer_update obj d) = sold_at obj"
  "archived_at (ListingSerializer_update obj d) = archived_at obj"
  by (simp_all add: ListingSerializer_update_def)

lemma Model_save_success_rows:
  assumes "fst (Model_save now s db) = Inr ()"
  shows "\<exists>j. (pk s = Some j \<or> (pk s = None \<and> j = next_listing_pk db))
         \<and> pk (fst (snd (Model_save now s db))) = Some j
         \<and> listing_rows (snd (snd (Model_save now s db))) j = Some (fst (snd (Model_save now s db)))"
proof (cases "listing_price_non_negative s")
  case False
  with assms show ?thesis
    by (simp add: Model_save_def Let_def listing_price_non_negative_def)
next
  case True
  show ?thesis
  proof (cases "pk s")
    case None
    with True show ?thesis
      by (simp add: Model_save_def Let_def listing_price_non_negative_def)
  next
    case (Some j)
    with True show ?thesis
      by (simp add: Model_save_def Let_def listing_price_non_negative_def)
  qed
qed

lemma save_success_stored_at:
  assumes ok: "fst (save fw now now' self db) = Inr ()" and k: "pk self = Some k"
  shows "listing_rows (snd (snd (save fw now now' self db))) k
           = Some (fst (snd (save fw now now' self db)))"
proof -
  let ?s = "apply_status_timestamps now (previous_status_of db self) self"
  from ok save_cases [of fw now now' self db]
  have sv: "save fw now now' self db = Model_save now' ?s db" by auto
  with ok have "fst (Model_save now' ?s db) = Inr ()" by simp
  from Model_save_success_rows [OF this] k sv show ?thesis
    by (auto simp: apply_status_timestamps_fields)
qed

lemma Listing_perform_create_store:
  assumes ok: "store_ok db" and row: "listing_rows db k = Some row"
  shows "store_ok (snd (Listing_perform_create fw user d now now' db))
         \<and> (\<exists>row'. listing_rows (snd (Listing_perform_create fw user d now now' db)) k = Some row'
                \<and> keeps_set (published_at row) (published_at row')
                \<and> keeps_set (sold_at row) (sold_at row')
                \<and> keeps_set (archived_at row) (archived_at row'))"
proof -
  let ?new = "(ListingSerializer_update (Listing_init DRAFT) d)\<lparr>owner_id := Some (user_id user)\<rparr>"
  have "pk ?new = None" by (simp add: ListingSerializer_update_fields Listing_init_def)
  then have fresh: "pk ?new = Some k \<Longrightarrow>
                  keeps_set (published_at row) (published_at ?new)
                  \<and> keeps_set (sold_at row) (sold_at ?new)
                  \<and> keeps_set (archived_at row) (archived_at ?new)"
    by simp
  have "snd (Listing_perform_create fw user d now now' db) = snd (snd (save fw now now' ?new db))"
    by (cases "save fw now now' ?new db")
       (auto simp: Listing_perform_create_def split: sum.splits)
  with save_store [OF ok row fresh, of fw now now'] show ?thesis by simp
qed

lemma Listing_partial_update_store:
  assumes ok: "store_ok db" and row: "listing_rows db k = Some row"
  shows "store_ok (snd (Listing_partial_update fw user j d now now' db))
         \<and> (\<exists>row'. listing_rows (snd (Listing_partial_update fw user j d now now' db)) k = Some row'
                \<and> keeps_set (published_at row) (published_at row')
                \<and> keeps_set (sold_at row) (sold_at row')
                \<and> keeps_set (archived_at row) (archived_at row'))"
proof (cases "listing_rows db j")
  case None
  with ok row show ?thesis by (auto simp: Listing_partial_update_def)
next
  case (Some obj)
  show ?thesis
  proof (cases "has_listing_permission False user obj")
    case False
    with Some ok row show ?thesis by (auto simp: Listing_partial_update_def)
  next
    case True
    let ?self = "ListingSerializer_update obj d"
    from ok Some have pkobj: "pk obj = Some j" by (simp add: store_ok_def)
    have fresh: "pk ?self = Some k \<Longrightarrow>
                  keeps_set (published_at row) (published_at ?self)
                  \<and> keeps_set (sold_at row) (sold_at ?self)
                  \<and> keeps_set (archived_at row) (archived_at ?self)"
    proof -
      assume "pk ?self = Some k"
      with pkobj have "j = k" by (simp add: ListingSerializer_update_fields)
      with Some row have "obj = row" by simp
      then show ?thesis by (simp add: ListingSerializer_update_fields)
    qed
    from Some True
    have "snd (Listing_partial_update fw user j d now now' db)
            = snd (snd (save fw now now' ?self db))"
      by (cases "save fw now now' ?self db")
         (auto simp: Listing_partial_update_def split: sum.splits)
    with save_store [OF ok row fresh, of fw now now'] show ?thesis by simp
  qed
qed

lemma handle_request_store:
  assumes ok: "store_ok db" and row: "listing_rows db k = Some row"
  shows "store_ok (handle_request fw rq now now' db)
         \<and> (\<exists>row'. listing_rows (handle_request fw rq now now' db) k = Some row'
                \<and> keeps_set (published_at row) (published_at row')
                \<and> keeps_set (sold_at row) (sold_at row')
                \<and> keeps_set (archived_at row) (archived_at row'))"
proof (cases rq)
  case (CreateListing user d)
  with Listing_perform_create_store [OF ok row, of fw user d now now'] show ?thesis by simp
next
  case (UpdateListing user j d)
  with Listing_partial_update_store [OF ok row, of fw user j d now now'] show ?thesis by simp
qed

lemma handle_requests_store:
  "store_ok db \<Longrightarrow> listing_rows db k = Some row \<Longrightarrow>
     store_ok (handle_requests fw rqs db)
     \<and> (\<exists>row'. listing_rows (handle_requests fw rqs db) k = Some row'
            \<and> keeps_set (published_at row) (published_at row')
            \<and> keeps_set (sold_at row) (sold_at row')
            \<and> keeps_set (archived_at row) (archived_at row'))"
proof (induction rqs arbitrary: db row)
  case Nil
  then show ?case by simp
next
  case (Cons a rqs)
  obtain rq now now' where a: "a = (rq, now, now')" by (cases a) auto
  from handle_request_store [OF Cons.prems, of fw rq now now']
  obtain mid where ok1: "store_ok (handle_request fw rq now now' db)"
    and mid: "listing_rows (handle_request fw rq now now' db) k = Some mid"
    and k1: "keeps_set (published_at row) (published_at mid)"
            "keeps_set (sold_at row) (sold_at mid)"
            "keeps_set (archived_at row) (archived_at mid)"
    by blast
  from Cons.IH [OF ok1 mid]
  obtain row' where ok2: "store_ok (handle_requests fw rqs (handle_request fw rq now now' db))"
    and r': "listing_rows (handle_requests fw rqs (handle_request fw rq now now' db)) k = Some row'"
    and k2: "keeps_set (published_at mid) (published_at row')"
            "keeps_set (sold_at mid) (sold_at row')"
            "keeps_set (archived_at mid) (archived_at row')"
    by blast
  from k1 k2 have "keeps_set (published_at row) (published_at row')"
    "keeps_set (sold_at row) (sold_at row')"
    "keeps_set (archived_at row) (archived_at row')"
    by (blast intro: keeps_set_trans)+
  with ok2 r' a show ?case by auto
qed

lemma store_ok_sample: "store_ok (sample_db_with (sample_row s p))"
  by (simp add: store_ok_def sample_db_with_def sample_db_def sample_row_def sample_listing_def)

lemma store_ok_sample_stamped:
  "store_ok (sample_db_with ((sample_row s p)\<lparr>published_at := t\<rparr>))"
  by (simp add: store_ok_def sample_db_with_def sample_db_def sample_row_def sample_listing_def)

lemma partial_update_not_found_iff:
  "fst (partial_update user db now k d tbl) = Inl NotFound
     \<longleftrightarrow> find (\<lambda>r. image_pk r = Some k) (image_rows tbl) = None"
proof (cases "find (\<lambda>r. image_pk r = Some k) (image_rows tbl)")
  case None
  then show ?thesis by (simp add: partial_update_def)
next
  case (Some obj)
  show ?thesis
  proof (cases "has_object_permission False user db obj")
    case (Inl e)
    then have "e = DoesNotExist"
      by (auto simp: has_object_permission_def split: option.splits)
    with Some Inl show ?thesis by (simp add: partial_update_def)
  next
    case (Inr b)
    show ?thesis
    proof (cases b)
      case False
      with Some Inr show ?thesis by (simp add: partial_update_def)
    next
      case True
      with Inr have p: "has_object_permission False user db obj = Inr True" by simp
      from partial_update_permitted [OF Some p, of now d] Some show ?thesis
        by (simp split: if_splits)
    qed
  qed
qed

lemma perform_create_keeps_rows:
  assumes "image_pk data = None" and "r \<in> set (image_rows tbl)"
  shows "r \<in> set (image_rows (snd (perform_create user listing now data tbl)))"
proof (cases "\<not> is_staff user \<and> owner_id listing \<noteq> Some (user_id user)")
  case True
  with assms(2) show ?thesis by (simp add: perform_create_def)
next
  case False
  then have "snd (perform_create user listing now data tbl)
               = snd (snd (ListingImage_save now data tbl))"
    by (cases "ListingImage_save now data tbl")
       (auto simp: perform_create_def split: sum.splits)
  with assms show ?thesis
    by (simp add: ListingImage_save_new [OF assms(1)])
qed

lemma has_object_permission_owner:
  "listing_rows db (listing_id obj) = Some l \<Longrightarrow>
     is_staff user \<or> owner_id l = Some (user_id user) \<Longrightarrow>
     has_object_permission False user db obj = Inr True"
  by (simp add: has_object_permission_def)

lemmas image_sample_defs =
  sample_db_two_def sample_images_two_def sample_images_plain_def make_primary_in_def

section \<open>The status state machine\<close>

text \<open>
  C1. For a listing that exists in the table (its key is set and its row is found),
  \<^verbatim>\<open>save\<close> fails with \<open>InvalidTransition\<close> exactly when the status being written is
  neither the stored status nor a direct successor of it in the graph
  draft -> active, archived; active -> sold, archived; sold -> archived; archived -> nothing.
  So every pair off the graph is refused, and every self-loop and every pair on an
  edge passes the transition check.
\<close>

theorem save_invalid_transition_iff:
  assumes "pk self = Some k" and "k \<noteq> 0" and "listing_rows db k = Some row"
  shows "fails_with InvalidTransition (fst (save fw now now' self db)) \<longleftrightarrow>
           \<not> (status self = status row
               \<or> (status row, status self) \<in>
                   {(DRAFT, ACTIVE), (DRAFT, ARCHIVED), (ACTIVE, SOLD),
                    (ACTIVE, ARCHIVED), (SOLD, ARCHIVED)})"
proof (cases "can_transition_to (Listing_init (status row)) (status self)")
  case True
  with assms show ?thesis
    using save_not_invalid_after_check
            [where fw = fw and db = db and self = self and now = now'
               and self' = "apply_status_timestamps now (Some (status row)) self"]
    by (simp add: save_def previous_status_of_def stored_status_def transitions_cases)
next
  case False
  with assms show ?thesis
    by (auto simp: save_def previous_status_of_def stored_status_def transitions_cases)
qed

theorem save_invalid_transition_iff_witness:
  "fails_with InvalidTransition
     (fst (save no_field_errors 10 11 (sample_row ACTIVE (Some 15000))
             (sample_db_with (sample_row ARCHIVED (Some 15000)))))
   \<and> \<not> fails_with InvalidTransition
     (fst (save no_field_errors 10 11 (sample_row ARCHIVED (Some 15000))
             (sample_db_with (sample_row ACTIVE (Some 15000)))))"
  using save_invalid_transition_iff
          [where self = "sample_row ACTIVE (Some 15000)" and k = 1
             and db = "sample_db_with (sample_row ARCHIVED (Some 15000))"
             and row = "sample_row ARCHIVED (Some 15000)"
             and fw = no_field_errors and now = 10 and now' = 11]
        save_invalid_transition_iff
          [where self = "sample_row ARCHIVED (Some 15000)" and k = 1
             and db = "sample_db_with (sample_row ACTIVE (Some 15000))"
             and row = "sample_row ACTIVE (Some 15000)"
             and fw = no_field_errors and now = 10 and now' = 11]
  by (simp add: sample_defs)

text \<open>
  C2, as the code has it. For a listing without a key the status being written is
  checked against draft: \<^verbatim>\<open>save\<close> fails with \<open>InvalidTransition\<close> exactly when that
  status is sold. Creating a listing as draft, active or archived passes the check.
\<close>

theorem save_new_invalid_transition_iff:
  assumes "\<not> truthy (pk self)"
  shows "fails_with InvalidTransition (fst (save fw now now' self db)) \<longleftrightarrow> status self = SOLD"
proof (cases "status self = SOLD")
  case True
  with assms show ?thesis
    by (simp add: save_def previous_status_of_def transitions_cases)
next
  case False
  with assms show ?thesis
    using save_not_invalid_after_check
            [where fw = fw and db = db and self = self and now = now'
               and self' = "apply_status_timestamps now None self"]
    by (cases "status self") (simp_all add: save_def previous_status_of_def transitions_cases)
qed

theorem save_new_invalid_transition_iff_witness:
  "fails_with InvalidTransition (fst (save no_field_errors 10 11 (sample_listing SOLD (Some 15000)) sample_db))
   \<and> \<not> fails_with InvalidTransition (fst (save no_field_errors 10 11 (sample_listing ACTIVE (Some 15000)) sample_db))"
  using save_new_invalid_transition_iff
          [where self = "sample_listing SOLD (Some 15000)" and fw = no_field_errors
             and now = 10 and now' = 11 and db = sample_db]
        save_new_invalid_transition_iff
          [where self = "sample_listing ACTIVE (Some 15000)" and fw = no_field_errors
             and now = 10 and now' = 11 and db = sample_db]
  by (simp add: sample_defs)

text \<open>
  C2 as stated fails: a new listing written with status archived passes the
  transition check, and here the whole write succeeds and stamps \<^verbatim>\<open>archived_at\<close>.
\<close>

theorem save_new_archived_counterexample:
  "fst (save no_field_errors 10 11 (sample_listing ARCHIVED None) sample_db) = Inr ()
   \<and> archived_at (fst (snd (save no_field_errors 10 11 (sample_listing ARCHIVED None) sample_db))) = Some 10"
  by (simp add: sample_defs save_defs)

text \<open>
  C10. When the instance carries a key but the status lookup finds no row, \<^verbatim>\<open>save\<close>
  makes no transition check: whatever status is written, it does not fail with
  \<open>InvalidTransition\<close>.
\<close>

theorem save_missing_row_no_transition_check:
  assumes "pk self = Some k" and "k \<noteq> 0" and "listing_rows db k = None"
  shows "\<not> fails_with InvalidTransition (fst (save fw now now' self db))"
  using assms save_not_invalid_after_check
          [where fw = fw and db = db and self = self and now = now'
             and self' = "apply_status_timestamps now None self"]
  by (simp add: save_def previous_status_of_def stored_status_def)

theorem save_missing_row_no_transition_check_witness:
  "\<not> fails_with InvalidTransition
       (fst (save no_field_errors 10 11 (sample_row SOLD (Some 15000)) sample_db))
   \<and> fst (save no_field_errors 10 11 (sample_row SOLD (Some 15000)) sample_db) = Inr ()"
  using save_missing_row_no_transition_check
          [where self = "sample_row SOLD (Some 15000)" and k = 1 and db = sample_db
             and fw = no_field_errors and now = 10 and now' = 11]
  by (simp add: sample_defs save_defs)

section \<open>Lifecycle timestamps\<close>

text \<open>
  C3, as the code has it. A successful \<^verbatim>\<open>save\<close> leaves each of \<^verbatim>\<open>published_at\<close>,
  \<^verbatim>\<open>sold_at\<close> and \<^verbatim>\<open>archived_at\<close> as the instance has it when it is set there. When it
  is unset there, the field receives the clock value exactly if the status written is
  the corresponding state and the status of the stored row is a different one; with no
  stored row (a new listing, or a key whose row is gone) exactly if the status written
  is the corresponding state. The instance returned is the row stored. Hence, in a
  store that keeps every row under its own key with the keys below the counter, over
  any run of requests that create listings or load a listing from the table and save
  it, where the three fields are read-only, a stored timestamp that is set keeps its
  value, and the store stays of that kind.
\<close>

theorem lifecycle_timestamps_sticky:
  "(pk self = Some k \<and> k \<noteq> 0 \<and> listing_rows db k = Some row
      \<and> fst (save fw now now' self db) = Inr () \<longrightarrow>
      published_at (fst (snd (save fw now now' self db))) =
        (case published_at self of
           Some t \<Rightarrow> Some t
         | None \<Rightarrow> if status self = ACTIVE \<and> status row \<noteq> ACTIVE then Some now else None)
      \<and> sold_at (fst (snd (save fw now now' self db))) =
        (case sold_at self of
           Some t \<Rightarrow> Some t
         | None \<Rightarrow> if status self = SOLD \<and> status row \<noteq> SOLD then Some now else None)
      \<and> archived_at (fst (snd (save fw now now' self db))) =
        (case archived_at self of
           Some t \<Rightarrow> Some t
         | None \<Rightarrow> if status self = ARCHIVED \<and> status row \<noteq> ARCHIVED then Some now else None)
      \<and> listing_rows (snd (snd (save fw now now' self db))) k
          = Some (fst (snd (save fw now now' self db))))
   \<and> ((\<not> truthy (pk self) \<or> (pk self = Some k \<and> listing_rows db k = None))
      \<and> fst (save fw now now' self db) = Inr () \<longrightarrow>
      published_at (fst (snd (save fw now now' self db))) =
        (case published_at self of
           Some t \<Rightarrow> Some t
         | None \<Rightarrow> if status self = ACTIVE then Some now else None)
      \<and> sold_at (fst (snd (save fw now now' self db))) =
        (case sold_at self of
           Some t \<Rightarrow> Some t
         | None \<Rightarrow> if status self = SOLD then Some now else None)
      \<and> archived_at (fst (snd (save fw now now' self db))) =
        (case archived_at self of
           Some t \<Rightarrow> Some t
         | None \<Rightarrow> if status self = ARCHIVED then Some now else None)
      \<and> (\<exists>j. pk (fst (snd (save fw now now' self db))) = Some j
             \<and> listing_rows (snd (snd (save fw now now' self db))) j
                 = Some (fst (snd (save fw now now' self db)))))
   \<and> (store_ok db \<and> listing_rows db k = Some row \<longrightarrow>
        store_ok (handle_requests fw rqs db)
        \<and> (\<exists>row'. listing_rows (handle_requests fw rqs db) k = Some row'
               \<and> (published_at row \<noteq> None \<longrightarrow> published_at row' = published_at row)
               \<and> (sold_at row \<noteq> None \<longrightarrow> sold_at row' = sold_at row)
               \<and> (archived_at row \<noteq> None \<longrightarrow> archived_at row' = archived_at row)))"
proof -
  let ?res = "save fw now now' self db"
  have a: "pk self = Some k \<and> k \<noteq> 0 \<and> listing_rows db k = Some row \<and> fst ?res = Inr () \<longrightarrow>
      published_at (fst (snd ?res)) =
        (case published_at self of
           Some t \<Rightarrow> Some t
         | None \<Rightarrow> if status self = ACTIVE \<and> status row \<noteq> ACTIVE then Some now else None)
      \<and> sold_at (fst (snd ?res)) =
        (case sold_at self of
           Some t \<Rightarrow> Some t
         | None \<Rightarrow> if status self = SOLD \<and> status row \<noteq> SOLD then Some now else None)
      \<and> archived_at (fst (snd ?res)) =
        (case archived_at self of
           Some t \<Rightarrow> Some t
         | None \<Rightarrow> if status self = ARCHIVED \<and> status row \<noteq> ARCHIVED then Some now else None)
      \<and> listing_rows (snd (snd ?res)) k = Some (fst (snd ?res))"
  proof
    assume h: "pk self = Some k \<and> k \<noteq> 0 \<and> listing_rows db k = Some row \<and> fst ?res = Inr ()"
    then have prev: "previous_status_of db self = Some (status row)"
      by (simp add: previous_status_of_def stored_status_def)
    from h have ok: "fst ?res = Inr ()" by simp
    have p: "published_at (fst (snd ?res)) =
        (case published_at self of
           Some t \<Rightarrow> Some t
         | None \<Rightarrow> if status self = ACTIVE \<and> status row \<noteq> ACTIVE then Some now else None)"
      using save_success_timestamps(1) [OF ok] prev by (cases "published_at self") auto
    have s: "sold_at (fst (snd ?res)) =
        (case sold_at self of
           Some t \<Rightarrow> Some t
         | None \<Rightarrow> if status self = SOLD \<and> status row \<noteq> SOLD then Some now else None)"
      using save_success_timestamps(2) [OF ok] prev by (cases "sold_at self") auto
    have r: "archived_at (fst (snd ?res)) =
        (case archived_at self of
           Some t \<Rightarrow> Some t
         | None \<Rightarrow> if status self = ARCHIVED \<and> status row \<noteq> ARCHIVED then Some now else None)"
      using save_success_timestamps(3) [OF ok] prev by (cases "archived_at self") auto
    from h save_success_stored_at [OF ok, of k]
    have st: "listing_rows (snd (snd ?res)) k = Some (fst (snd ?res))" by simp
    from p s r st show "published_at (fst (snd ?res)) =
        (case published_at self of
           Some t \<Rightarrow> Some t
         | None \<Rightarrow> if status self = ACTIVE \<and> status row \<noteq> ACTIVE then Some now else None)
      \<and> sold_at (fst (snd ?res)) =
        (case sold_at self of
           Some t \<Rightarrow> Some t
         | None \<Rightarrow> if status self = SOLD \<and> status row \<noteq> SOLD then Some now else None)
      \<and> archived_at (fst (snd ?res)) =
        (case archived_at self of
           Some t \<Rightarrow> Some t
         | None \<Rightarrow> if status self = ARCHIVED \<and> status row \<noteq> ARCHIVED then Some now else None)
      \<and> listing_rows (snd (snd ?res)) k = Some (fst (snd ?res))"
      by blast
  qed
  have b: "(\<not> truthy (pk self) \<or> (pk self = Some k \<and> listing_rows db k = None))
      \<and> fst ?res = Inr () \<longrightarrow>
      published_at (fst (snd ?res)) =
        (case published_at self of
           Some t \<Rightarrow> Some t
         | None \<Rightarrow> if status self = ACTIVE then Some now else None)
      \<and> sold_at (fst (snd ?res)) =
        (case sold_at self of
           Some t \<Rightarrow> Some t
         | None \<Rightarrow> if status self = SOLD then Some now else None)
      \<and> archived_at (fst (snd ?res)) =
        (case archived_at self of
           Some t \<Rightarrow> Some t
         | None \<Rightarrow> if status self = ARCHIVED then Some now else None)
      \<and> (\<exists>j. pk (fst (snd ?res)) = Some j
             \<and> listing_rows (snd (snd ?res)) j = Some (fst (snd ?res)))"
  proof
    assume h: "(\<not> truthy (pk self) \<or> (pk self = Some k \<and> listing_rows db k = None))
      \<and> fst ?res = Inr ()"
    then have prev: "previous_status_of db self = None"
      by (auto simp: previous_status_of_def stored_status_def)
    from h have ok: "fst ?res = Inr ()" by simp
    have p: "published_at (fst (snd ?res)) =
        (case published_at self of
           Some t \<Rightarrow> Some t
         | None \<Rightarrow> if status self = ACTIVE then Some now else None)"
      using save_success_timestamps(1) [OF ok] prev by (cases "published_at self") auto
    have s: "sold_at (fst (snd ?res)) =
        (case sold_at self of
           Some t \<Rightarrow> Some t
         | None \<Rightarrow> if status self = SOLD then Some now else None)"
      using save_success_timestamps(2) [OF ok] prev by (cases "sold_at self") auto
    have r: "archived_at (fst (snd ?res)) =
        (case archived_at self of
           Some t \<Rightarrow> Some t
         | None \<Rightarrow> if status self = ARCHIVED then Some now else None)"
      using save_success_timestamps(3) [OF ok] prev by (cases "archived_at self") auto
    from p s r save_success_timestamps(4) [OF ok]
    show "published_at (fst (snd ?res)) =
        (case published_at self of
           Some t \<Rightarrow> Some t
         | None \<Rightarrow> if status self = ACTIVE then Some now else None)
      \<and> sold_at (fst (snd ?res)) =
        (case sold_at self of
           Some t \<Rightarrow> Some t
         | None \<Rightarrow> if status self = SOLD then Some now else None)
      \<and> archived_at (fst (snd ?res)) =
        (case archived_at self of
           Some t \<Rightarrow> Some t
         | None \<Rightarrow> if status self = ARCHIVED then Some now else None)
      \<and> (\<exists>j. pk (fst (snd ?res)) = Some j
             \<and> listing_rows (snd (snd ?res)) j = Some (fst (snd ?res)))"
      by blast
  qed
  have c: "store_ok db \<and> listing_rows db k = Some row \<longrightarrow>
        store_ok (handle_requests fw rqs db)
        \<and> (\<exists>row'. listing_rows (handle_requests fw rqs db) k = Some row'
               \<and> (published_at row \<noteq> None \<longrightarrow> published_at row' = published_at row)
               \<and> (sold_at row \<noteq> None \<longrightarrow> sold_at row' = sold_at row)
               \<and> (archived_at row \<noteq> None \<longrightarrow> archived_at row' = archived_at row))"
    using handle_requests_store [of db k row fw rqs] unfolding keeps_set_def by blast
  from a b c show ?thesis by blast
qed

theorem lifecycle_timestamps_sticky_witness:
  "published_at (fst (snd (save no_field_errors 10 11 (sample_row ACTIVE (Some 15000))
       (sample_db_with (sample_row DRAFT (Some 15000)))))) = Some 10
   \<and> published_at (fst (snd (save no_field_errors 20 21 (sample_row ACTIVE (Some 15000))
       (sample_db_with (sample_row ACTIVE (Some 15000)))))) = None
   \<and> published_at (fst (snd (save no_field_errors 10 11 (sample_listing ACTIVE (Some 15000))
       sample_db))) = Some 10
   \<and> map_option published_at (listing_rows
        (handle_requests no_field_errors
           [(UpdateListing sample_owner 1 (set_status ACTIVE), 20, 21),
            (CreateListing sample_owner (set_status DRAFT), 25, 26),
            (UpdateListing sample_owner 1 (set_status ARCHIVED), 30, 31),
            (UpdateListing sample_owner 1 (set_status ACTIVE), 40, 41)]
           (sample_db_with ((sample_row ACTIVE (Some 15000))\<lparr>published_at := Some 10\<rparr>))) 1)
       = Some (Some 10)"
proof -
  let ?draft = "sample_db_with (sample_row DRAFT (Some 15000))"
  let ?active = "sample_db_with (sample_row ACTIVE (Some 15000))"
  let ?stamped = "(sample_row ACTIVE (Some 15000))\<lparr>published_at := Some 10\<rparr>"
  let ?rqs = "[(UpdateListing sample_owner 1 (set_status ACTIVE), 20, 21),
            (CreateListing sample_owner (set_status DRAFT), 25, 26),
            (UpdateListing sample_owner 1 (set_status ARCHIVED), 30, 31),
            (UpdateListing sample_owner 1 (set_status ACTIVE), 40, 41)]"
  have h1: "pk (sample_row ACTIVE (Some 15000)) = Some 1 \<and> (1::nat) \<noteq> 0
      \<and> listing_rows ?draft 1 = Some (sample_row DRAFT (Some 15000))
      \<and> fst (save no_field_errors 10 11 (sample_row ACTIVE (Some 15000)) ?draft) = Inr ()"
    by (simp add: sample_defs save_defs)
  have h2: "pk (sample_row ACTIVE (Some 15000)) = Some 1 \<and> (1::nat) \<noteq> 0
      \<and> listing_rows ?active 1 = Some (sample_row ACTIVE (Some 15000))
      \<and> fst (save no_field_errors 20 21 (sample_row ACTIVE (Some 15000)) ?active) = Inr ()"
    by (simp add: sample_defs save_defs)
  have h3: "(\<not> truthy (pk (sample_listing ACTIVE (Some 15000)))
        \<or> (pk (sample_listing ACTIVE (Some 15000)) = Some 1 \<and> listing_rows sample_db 1 = None))
      \<and> fst (save no_field_errors 10 11 (sample_listing ACTIVE (Some 15000)) sample_db) = Inr ()"
    by (simp add: sample_defs save_defs)
  have h4: "store_ok (sample_db_with ?stamped)
      \<and> listing_rows (sample_db_with ?stamped) 1 = Some ?stamped"
    using store_ok_sample_stamped [where s = ACTIVE and p = "Some 15000" and t = "Some 10"]
    by (simp add: sample_db_with_def sample_db_def)
  from h1 lifecycle_timestamps_sticky
         [where self = "sample_row ACTIVE (Some 15000)" and k = 1 and db = ?draft
            and row = "sample_row DRAFT (Some 15000)"
            and fw = no_field_errors and now = 10 and now' = 11]
  have c1: "published_at (fst (snd (save no_field_errors 10 11 (sample_row ACTIVE (Some 15000))
              ?draft))) =
        (case published_at (sample_row ACTIVE (Some 15000)) of
           Some t \<Rightarrow> Some t
         | None \<Rightarrow> if status (sample_row ACTIVE (Some 15000)) = ACTIVE
                     \<and> status (sample_row DRAFT (Some 15000)) \<noteq> ACTIVE then Some 10 else None)"
    by blast
  from h2 lifecycle_timestamps_sticky
         [where self = "sample_row ACTIVE (Some 15000)" and k = 1 and db = ?active
            and row = "sample_row ACTIVE (Some 15000)"
            and fw = no_field_errors and now = 20 and now' = 21]
  have c2: "published_at (fst (snd (save no_field_errors 20 21 (sample_row ACTIVE (Some 15000))
              ?active))) =
        (case published_at (sample_row ACTIVE (Some 15000)) of
           Some t \<Rightarrow> Some t
         | None \<Rightarrow> if status (sample_row ACTIVE (Some 15000)) = ACTIVE
                     \<and> status (sample_row ACTIVE (Some 15000)) \<noteq> ACTIVE then Some 20 else None)"
    by blast
  from h3 lifecycle_timestamps_sticky
         [where self = "sample_listing ACTIVE (Some 15000)" and k = 1 and db = sample_db
            and fw = no_field_errors and now = 10 and now' = 11]
  have c3: "published_at (fst (snd (save no_field_errors 10 11 (sample_listing ACTIVE (Some 15000))
              sample_db))) =
        (case published_at (sample_listing ACTIVE (Some 15000)) of
           Some t \<Rightarrow> Some t
         | None \<Rightarrow> if status (sample_listing ACTIVE (Some 15000)) = ACTIVE then Some 10 else None)"
    by blast
  from h4 lifecycle_timestamps_sticky
         [where db = "sample_db_with ?stamped" and k = 1 and row = ?stamped
            and fw = no_field_errors and rqs = ?rqs]
  obtain row' where
    r: "listing_rows (handle_requests no_field_errors ?rqs (sample_db_with ?stamped)) 1 = Some row'"
    and p: "published_at ?stamped \<noteq> None \<longrightarrow> published_at row' = published_at ?stamped"
    by blast
  have "published_at ?stamped = Some 10" by simp
  with p have "published_at row' = Some 10" by simp
  with r have c4: "map_option published_at
      (listing_rows (handle_requests no_field_errors ?rqs (sample_db_with ?stamped)) 1)
       = Some (Some 10)"
    by simp
  have v1: "published_at (sample_row ACTIVE (Some 15000)) = None"
    "status (sample_row ACTIVE (Some 15000)) = ACTIVE"
    "status (sample_row DRAFT (Some 15000)) = DRAFT"
    "published_at (sample_listing ACTIVE (Some 15000)) = None"
    "status (sample_listing ACTIVE (Some 15000)) = ACTIVE"
    by (simp_all add: sample_row_def sample_listing_def)
  from c1 c2 c3 c4 show ?thesis by (simp only: v1) simp
qed

text \<open>
  C3 as stated fails: the stored row is active with \<^verbatim>\<open>published_at\<close> set; an instance
  of the same listing that was loaded before the stamp, and so carries none, is saved
  as active; the save succeeds and the stored \<^verbatim>\<open>published_at\<close> is null afterwards.
\<close>

theorem stale_instance_counterexample:
  "map_option published_at
     (listing_rows (sample_db_with ((sample_row ACTIVE (Some 15000))\<lparr>published_at := Some 10\<rparr>)) 1)
     = Some (Some 10)
   \<and> fst (save no_field_errors 20 21 (sample_row ACTIVE (Some 15000))
            (sample_db_with ((sample_row ACTIVE (Some 15000))\<lparr>published_at := Some 10\<rparr>))) = Inr ()
   \<and> map_option published_at
       (listing_rows (snd (snd (save no_field_errors 20 21 (sample_row ACTIVE (Some 15000))
            (sample_db_with ((sample_row ACTIVE (Some 15000))\<lparr>published_at := Some 10\<rparr>))))) 1)
     = Some None"
  by (simp add: sample_defs save_defs)

section \<open>Business rules\<close>

text \<open>
  C4, as the code has it. \<^verbatim>\<open>Listing.clean\<close> stops at the first rule it finds violated:
  a city of another region is reported alone, whatever the price; the missing price
  of an active or sold listing is reported only when the city check has passed; a
  failure of \<^verbatim>\<open>clean\<close> names exactly one rule; and \<^verbatim>\<open>clean\<close> does not look at
  the sign of the price.
\<close>

theorem clean_reports_first_violation:
  "(city_region_differs db self = Inr True \<longrightarrow>
      clean db self = Inl (ValidationError [ReferentialMismatch]))
   \<and> (fails_with PriceRequired (clean db self) \<longleftrightarrow>
        city_region_differs db self = Inr False
        \<and> (status self = ACTIVE \<or> status self = SOLD) \<and> price_amount self = None)
   \<and> (clean db self = Inl (ValidationError vs) \<longrightarrow> length vs = 1)
   \<and> clean db (self\<lparr>price_amount := Some p\<rparr>) = clean db (self\<lparr>price_amount := Some q\<rparr>)"
proof -
  have a: "city_region_differs db self = Inr True \<longrightarrow>
      clean db self = Inl (ValidationError [ReferentialMismatch])"
    by (simp add: clean_def)
  have c: "clean db self = Inl (ValidationError vs) \<longrightarrow> length vs = 1"
    using clean_cases [of db self] by auto
  have d: "clean db (self\<lparr>price_amount := Some p\<rparr>) = clean db (self\<lparr>price_amount := Some q\<rparr>)"
    by (simp add: clean_def city_region_differs_def split: option.splits)
  from a c d clean_price_required_iff [of db self] show ?thesis by blast
qed

theorem clean_reports_first_violation_witness:
  "clean sample_db ((sample_listing ACTIVE None)\<lparr>city_id := Some 2\<rparr>)
     = Inl (ValidationError [ReferentialMismatch])
   \<and> \<not> fails_with PriceRequired (clean sample_db ((sample_listing ACTIVE None)\<lparr>city_id := Some 2\<rparr>))
   \<and> fails_with PriceRequired (clean sample_db (sample_listing ACTIVE None))
   \<and> clean sample_db ((sample_listing DRAFT None)\<lparr>price_amount := Some (- 5)\<rparr>) = Inr ()"
  using clean_reports_first_violation
          [where db = sample_db and self = "(sample_listing ACTIVE None)\<lparr>city_id := Some 2\<rparr>"
             and vs = "[ReferentialMismatch]" and p = 1 and q = 2]
        clean_reports_first_violation
          [where db = sample_db and self = "sample_listing ACTIVE None"
             and vs = "[PriceRequired]" and p = 1 and q = 2]
        clean_reports_first_violation
          [where db = sample_db and self = "sample_listing DRAFT None"
             and vs = "[]" and p = "- 5" and q = 5]
  by (simp add: sample_defs clean_def city_region_differs_def)

text \<open>
  C4 as stated fails: an update to active without a price and with a city of another
  region violates two rules at once, and the failure returned names the city rule only.
\<close>

theorem clean_collect_all_counterexample:
  "city_region_differs (sample_db_with (sample_row DRAFT None))
       ((sample_row ACTIVE None)\<lparr>city_id := Some 2\<rparr>) = Inr True
   \<and> status ((sample_row ACTIVE None)\<lparr>city_id := Some 2\<rparr>) = ACTIVE
   \<and> price_amount ((sample_row ACTIVE None)\<lparr>city_id := Some 2\<rparr>) = None
   \<and> save no_field_errors 10 11 ((sample_row ACTIVE None)\<lparr>city_id := Some 2\<rparr>)
          (sample_db_with (sample_row DRAFT None))
       = (Inl (ValidationError [ReferentialMismatch]),
          (sample_row ACTIVE None)\<lparr>city_id := Some 2\<rparr>,
          sample_db_with (sample_row DRAFT None))"
  by (simp add: sample_defs save_defs)

text \<open>
  C6, as the code has it. A write of an active or sold listing without a price is
  always refused and changes nothing; the failure reports \<open>PriceRequired\<close> exactly
  when the transition check has passed and the city check has passed. In particular,
  updating a stored draft to active, with the city in the listing's region, fails
  with \<open>PriceRequired\<close> when the price is null, and succeeds with a non-negative
  price when the framework's validation rejects nothing.
\<close>

theorem save_price_required:
  assumes "status self = ACTIVE \<or> status self = SOLD"
  shows "(price_amount self = None \<longrightarrow>
            (\<exists>e. save fw now now' self db = (Inl e, self, db))
            \<and> (fails_with PriceRequired (fst (save fw now now' self db)) \<longleftrightarrow>
                 \<not> fails_with InvalidTransition (fst (save fw now now' self db))
                 \<and> city_region_differs db self = Inr False))
       \<and> (pk self = Some k \<and> k \<noteq> 0 \<and> listing_rows db k = Some row \<and> status row = DRAFT
            \<and> status self = ACTIVE \<and> city_region_differs db self = Inr False \<longrightarrow>
            (price_amount self = None \<longrightarrow> fails_with PriceRequired (fst (save fw now now' self db)))
            \<and> (price_amount self = Some p \<and> 0 \<le> p \<and> fw self = [] \<longrightarrow>
                 fst (save fw now now' self db) = Inr ()))"
proof -
  have rep: "fails_with PriceRequired (fst (save fw now now' self db)) \<longleftrightarrow>
               \<not> fails_with InvalidTransition (fst (save fw now now' self db))
               \<and> fails_with PriceRequired (clean db self)"
    by (rule save_reports_clean) simp
  have a: "price_amount self = None \<longrightarrow> (\<exists>e. save fw now now' self db = (Inl e, self, db))"
  proof
    assume "price_amount self = None"
    with assms have "clean db self \<noteq> Inr ()"
      by (auto simp: clean_def split: sum.splits bool.splits)
    then show "\<exists>e. save fw now now' self db = (Inl e, self, db)" by (rule save_unclean)
  qed
  have b: "price_amount self = None \<longrightarrow>
             (fails_with PriceRequired (fst (save fw now now' self db)) \<longleftrightarrow>
                 \<not> fails_with InvalidTransition (fst (save fw now now' self db))
                 \<and> city_region_differs db self = Inr False)"
    using rep assms by (simp add: clean_price_required_iff)
  have c: "pk self = Some k \<and> k \<noteq> 0 \<and> listing_rows db k = Some row \<and> status row = DRAFT
            \<and> status self = ACTIVE \<and> city_region_differs db self = Inr False \<longrightarrow>
            (price_amount self = None \<longrightarrow> fails_with PriceRequired (fst (save fw now now' self db)))
            \<and> (price_amount self = Some p \<and> 0 \<le> p \<and> fw self = [] \<longrightarrow>
                 fst (save fw now now' self db) = Inr ())"
  proof (intro impI conjI)
    assume h: "pk self = Some k \<and> k \<noteq> 0 \<and> listing_rows db k = Some row \<and> status row = DRAFT
            \<and> status self = ACTIVE \<and> city_region_differs db self = Inr False"
    then have ok: "\<not> fails_with InvalidTransition (fst (save fw now now' self db))"
      using draft_to_active_passes [of self k db row fw now now'] by blast
    {
      assume "price_amount self = None"
      with h ok rep show "fails_with PriceRequired (fst (save fw now now' self db))"
        by (simp add: clean_price_required_iff)
    }
    {
      assume p: "price_amount self = Some p \<and> 0 \<le> p \<and> fw self = []"
      with h have "clean db self = Inr ()" by (simp add: clean_def)
      moreover from p have "listing_price_non_negative self"
        by (simp add: listing_price_non_negative_def)
      ultimately show "fst (save fw now now' self db) = Inr ()"
        using ok p save_succeeds by blast
    }
  qed
  from a b c show ?thesis by blast
qed

theorem save_price_required_witness:
  "fails_with PriceRequired
     (fst (save no_field_errors 10 11 (sample_row ACTIVE None) (sample_db_with (sample_row DRAFT None))))
   \<and> fst (save no_field_errors 10 11 (sample_row ACTIVE (Some 15000))
            (sample_db_with (sample_row DRAFT None))) = Inr ()"
  using save_price_required
          [where self = "sample_row ACTIVE None" and db = "sample_db_with (sample_row DRAFT None)"
             and fw = no_field_errors and now = 10 and now' = 11 and k = 1
             and row = "sample_row DRAFT None" and p = 0]
        save_price_required
          [where self = "sample_row ACTIVE (Some 15000)"
             and db = "sample_db_with (sample_row DRAFT None)"
             and fw = no_field_errors and now = 10 and now' = 11 and k = 1
             and row = "sample_row DRAFT None" and p = 15000]
  by (simp add: sample_defs save_defs)

text \<open>
  C6 as stated fails: creating a listing as sold without a price is refused by the
  transition check, with \<open>InvalidTransition\<close> alone; \<open>PriceRequired\<close> is not reported.
\<close>

theorem price_required_preempted_counterexample:
  "status (sample_listing SOLD None) = SOLD
   \<and> price_amount (sample_listing SOLD None) = None
   \<and> save no_field_errors 10 11 (sample_listing SOLD None) sample_db
       = (Inl (ValidationError [InvalidTransition]), sample_listing SOLD None, sample_db)
   \<and> \<not> fails_with PriceRequired
         (fst (save no_field_errors 10 11 (sample_listing SOLD None) sample_db))"
  by (simp add: sample_defs save_defs)

text \<open>
  C7, as the code has it. For a listing with a city and a region assigned, the city
  being a stored one: when the city's region differs from the listing's region the
  write is refused and changes nothing, and the failure reports
  \<open>ReferentialMismatch\<close> exactly when the transition check has passed. After a
  successful write the city's region is the listing's region, in the row stored.
\<close>

theorem save_city_region:
  assumes "city_id self = Some c" and "c \<noteq> 0" and "region_id self = Some r" and "r \<noteq> 0"
    and "city_rows db c = Some cr"
  shows "(cr \<noteq> r \<longrightarrow>
            (\<exists>e. save fw now now' self db = (Inl e, self, db))
            \<and> (fails_with ReferentialMismatch (fst (save fw now now' self db)) \<longleftrightarrow>
                 \<not> fails_with InvalidTransition (fst (save fw now now' self db))))
       \<and> (fst (save fw now now' self db) = Inr () \<longrightarrow>
            cr = r
            \<and> (\<exists>k. listing_rows (snd (snd (save fw now now' self db))) k
                     = Some (fst (snd (save fw now now' self db))))
            \<and> city_id (fst (snd (save fw now now' self db))) = Some c
            \<and> region_id (fst (snd (save fw now now' self db))) = Some r
            \<and> city_rows (snd (snd (save fw now now' self db))) c = Some r)"
proof -
  from assms have crd: "city_region_differs db self = Inr (cr \<noteq> r)"
    by (simp add: city_region_differs_def)
  have rep: "fails_with ReferentialMismatch (fst (save fw now now' self db)) \<longleftrightarrow>
               \<not> fails_with InvalidTransition (fst (save fw now now' self db))
               \<and> fails_with ReferentialMismatch (clean db self)"
    by (rule save_reports_clean) simp
  have a: "cr \<noteq> r \<longrightarrow> (\<exists>e. save fw now now' self db = (Inl e, self, db))"
  proof
    assume "cr \<noteq> r"
    with crd have "clean db self \<noteq> Inr ()" by (simp add: clean_def)
    then show "\<exists>e. save fw now now' self db = (Inl e, self, db)" by (rule save_unclean)
  qed
  have b: "cr \<noteq> r \<longrightarrow>
             (fails_with ReferentialMismatch (fst (save fw now now' self db)) \<longleftrightarrow>
                 \<not> fails_with InvalidTransition (fst (save fw now now' self db)))"
    using rep crd by (simp add: clean_mismatch_iff)
  have c: "fst (save fw now now' self db) = Inr () \<longrightarrow>
            cr = r
            \<and> (\<exists>k. listing_rows (snd (snd (save fw now now' self db))) k
                     = Some (fst (snd (save fw now now' self db))))
            \<and> city_id (fst (snd (save fw now now' self db))) = Some c
            \<and> region_id (fst (snd (save fw now now' self db))) = Some r
            \<and> city_rows (snd (snd (save fw now now' self db))) c = Some r"
  proof
    assume ok: "fst (save fw now now' self db) = Inr ()"
    with a have eq: "cr = r" by auto
    from ok save_cases [of fw now now' self db]
    have sv: "save fw now now' self db =
                Model_save now' (apply_status_timestamps now (previous_status_of db self) self) db"
      by auto
    from save_success_timestamps(4) [OF ok]
    have st: "\<exists>k. listing_rows (snd (snd (save fw now now' self db))) k
                     = Some (fst (snd (save fw now now' self db)))"
      by blast
    from sv assms eq
    have "city_id (fst (snd (save fw now now' self db))) = Some c"
      "region_id (fst (snd (save fw now now' self db))) = Some r"
      "city_rows (snd (snd (save fw now now' self db))) c = Some r"
      by (simp_all add: Model_save_fields Model_save_city_rows apply_status_timestamps_fields)
    with eq st show "cr = r
            \<and> (\<exists>k. listing_rows (snd (snd (save fw now now' self db))) k
                     = Some (fst (snd (save fw now now' self db))))
            \<and> city_id (fst (snd (save fw now now' self db))) = Some c
            \<and> region_id (fst (snd (save fw now now' self db))) = Some r
            \<and> city_rows (snd (snd (save fw now now' self db))) c = Some r"
      by blast
  qed
  from a b c show ?thesis by blast
qed

theorem save_city_region_witness:
  "fails_with ReferentialMismatch
     (fst (save no_field_errors 10 11 ((sample_row DRAFT None)\<lparr>city_id := Some 2\<rparr>)
             (sample_db_with (sample_row DRAFT None))))
   \<and> fst (save no_field_errors 10 11 (sample_row DRAFT (Some 100))
             (sample_db_with (sample_row DRAFT None))) = Inr ()"
  using save_city_region
          [where self = "(sample_row DRAFT None)\<lparr>city_id := Some 2\<rparr>" and c = 2 and r = 1
             and cr = 2 and db = "sample_db_with (sample_row DRAFT None)"
             and fw = no_field_errors and now = 10 and now' = 11]
        save_city_region
          [where self = "sample_row DRAFT (Some 100)" and c = 1 and r = 1
             and cr = 1 and db = "sample_db_with (sample_row DRAFT None)"
             and fw = no_field_errors and now = 10 and now' = 11]
  by (simp add: sample_defs save_defs)

text \<open>
  C7 as stated fails: updating an archived listing to active with a city of another
  region is refused by the transition check, with \<open>InvalidTransition\<close> alone;
  \<open>ReferentialMismatch\<close> is not reported.
\<close>

theorem city_mismatch_preempted_counterexample:
  "city_rows (sample_db_with (sample_row ARCHIVED (Some 15000))) 2 = Some 2
   \<and> region_id ((sample_row ACTIVE (Some 15000))\<lparr>city_id := Some 2\<rparr>) = Some 1
   \<and> save no_field_errors 10 11 ((sample_row ACTIVE (Some 15000))\<lparr>city_id := Some 2\<rparr>)
          (sample_db_with (sample_row ARCHIVED (Some 15000)))
       = (Inl (ValidationError [InvalidTransition]),
          (sample_row ACTIVE (Some 15000))\<lparr>city_id := Some 2\<rparr>,
          sample_db_with (sample_row ARCHIVED (Some 15000)))"
  by (simp add: sample_defs save_defs)

section \<open>Rejected writes\<close>

text \<open>
  C8. When \<^verbatim>\<open>save\<close> fails, the store is as it was; and when the failure comes from
  the transition check or from validation (anything but the table's own refusal of
  the row), the instance is as it was too, lifecycle timestamps included.
\<close>

theorem save_rejected_atomic:
  assumes "fst (save fw now now' self db) = Inl e"
  shows "snd (snd (save fw now now' self db)) = db
         \<and> (e \<noteq> IntegrityError \<longrightarrow> fst (snd (save fw now now' self db)) = self)"
  using save_failure_state [OF assms] by blast

theorem save_rejected_atomic_witness:
  "save no_field_errors 10 11 (sample_row ACTIVE None) (sample_db_with (sample_row DRAFT None))
     = (Inl (ValidationError [PriceRequired]), sample_row ACTIVE None,
        sample_db_with (sample_row DRAFT None))"
  using save_rejected_atomic
          [where fw = no_field_errors and now = 10 and now' = 11
             and self = "sample_row ACTIVE None" and db = "sample_db_with (sample_row DRAFT None)"
             and e = "ValidationError [PriceRequired]"]
  by (simp add: sample_defs save_defs)

section \<open>The primary image\<close>

text \<open>
  C5. Starting from the empty table, after any run of image writes no listing has two
  primary images. Each single write keeps that invariant (and the table well formed);
  a write of a primary image while another image of the same listing is primary is
  refused with \<open>IntegrityError\<close> and leaves the table as it was; any other write is accepted
  and its row is stored. The two writes of the view set, creating an image and updating
  one, keep the invariant as well.
\<close>

theorem primary_image_invariant:
  "at_most_one_primary (image_rows (write_images ws empty_image_table))
   \<and> (table_ok tbl \<and> at_most_one_primary (image_rows tbl) \<longrightarrow>
        at_most_one_primary (image_rows (snd (snd (ListingImage_save now self tbl))))
        \<and> table_ok (snd (snd (ListingImage_save now self tbl)))
        \<and> (is_primary self
             \<and> (\<exists>r\<in>set (image_rows tbl). image_pk r \<noteq> image_pk self
                    \<and> listing_id r = listing_id self \<and> is_primary r)
            \<longrightarrow> ListingImage_save now self tbl
                  = (Inl IntegrityError, fst (snd (ListingImage_save now self tbl)), tbl))
        \<and> (\<not> (is_primary self
                \<and> (\<exists>r\<in>set (image_rows tbl). image_pk r \<noteq> image_pk self
                       \<and> listing_id r = listing_id self \<and> is_primary r))
            \<longrightarrow> fst (ListingImage_save now self tbl) = Inr ()
                \<and> fst (snd (ListingImage_save now self tbl))
                    \<in> set (image_rows (snd (snd (ListingImage_save now self tbl))))))
   \<and> (table_ok tbl \<and> at_most_one_primary (image_rows tbl) \<longrightarrow>
        at_most_one_primary (image_rows (snd (perform_create user listing now data tbl)))
        \<and> at_most_one_primary (image_rows (snd (partial_update user db now k d tbl))))"
proof -
  have a: "at_most_one_primary (image_rows (write_images ws empty_image_table))"
    using write_images_invariant [OF empty_image_table_ok, of ws] by simp
  have b: "table_ok tbl \<and> at_most_one_primary (image_rows tbl) \<longrightarrow>
        at_most_one_primary (image_rows (snd (snd (ListingImage_save now self tbl))))
        \<and> table_ok (snd (snd (ListingImage_save now self tbl)))"
    using ListingImage_save_invariant [of tbl now self] by blast
  have c: "table_ok tbl \<longrightarrow>
          (is_primary self
             \<and> (\<exists>r\<in>set (image_rows tbl). image_pk r \<noteq> image_pk self
                    \<and> listing_id r = listing_id self \<and> is_primary r)
            \<longrightarrow> ListingImage_save now self tbl
                  = (Inl IntegrityError, fst (snd (ListingImage_save now self tbl)), tbl))"
  proof (intro impI)
    assume ok: "table_ok tbl"
      and "is_primary self
             \<and> (\<exists>r\<in>set (image_rows tbl). image_pk r \<noteq> image_pk self
                    \<and> listing_id r = listing_id self \<and> is_primary r)"
    then have "\<not> unique_primary_listing_image (image_rows tbl) self"
      by (simp add: unique_primary_iff)
    with ListingImage_save_accepts_iff [OF ok, of now self]
    have "fst (ListingImage_save now self tbl) \<noteq> Inr ()" by simp
    from ListingImage_save_refused [OF this]
    show "ListingImage_save now self tbl
            = (Inl IntegrityError, fst (snd (ListingImage_save now self tbl)), tbl)"
      by (metis prod.collapse)
  qed
  have d: "table_ok tbl \<longrightarrow>
          (\<not> (is_primary self
                \<and> (\<exists>r\<in>set (image_rows tbl). image_pk r \<noteq> image_pk self
                       \<and> listing_id r = listing_id self \<and> is_primary r))
            \<longrightarrow> fst (ListingImage_save now self tbl) = Inr ()
                \<and> fst (snd (ListingImage_save now self tbl))
                    \<in> set (image_rows (snd (snd (ListingImage_save now self tbl)))))"
  proof (intro impI)
    assume ok: "table_ok tbl"
      and "\<not> (is_primary self
                \<and> (\<exists>r\<in>set (image_rows tbl). image_pk r \<noteq> image_pk self
                       \<and> listing_id r = listing_id self \<and> is_primary r))"
    then have "unique_primary_listing_image (image_rows tbl) self"
      by (simp add: unique_primary_iff)
    with ListingImage_save_accepts_iff [OF ok, of now self]
    have r: "fst (ListingImage_save now self tbl) = Inr ()" by simp
    from r ListingImage_save_stored [OF r]
    show "fst (ListingImage_save now self tbl) = Inr ()
                \<and> fst (snd (ListingImage_save now self tbl))
                    \<in> set (image_rows (snd (snd (ListingImage_save now self tbl))))"
      by simp
  qed
  have e: "table_ok tbl \<and> at_most_one_primary (image_rows tbl) \<longrightarrow>
        at_most_one_primary (image_rows (snd (perform_create user listing now data tbl)))
        \<and> at_most_one_primary (image_rows (snd (partial_update user db now k d tbl)))"
    using view_writes_invariant(1) [of tbl user listing now data]
      view_writes_invariant(2) [of tbl user db now k d]
    by blast
  from a b c d e show ?thesis by blast
qed

theorem primary_image_invariant_witness:
  "ListingImage_save 5 (sample_image 2 True) sample_images
     = (Inl IntegrityError, sample_image 2 True, sample_images)
   \<and> fst (ListingImage_save 5 (sample_image 2 False) sample_images) = Inr ()
   \<and> at_most_one_primary (image_rows (snd (snd
        (ListingImage_save 5 ((sample_image 3 True)\<lparr>image_pk := None, listing_id := 2\<rparr>)
           sample_images))))
   \<and> at_most_one_primary (image_rows (write_images
        [(5, (sample_image 0 True)\<lparr>image_pk := None\<rparr>), (6, (sample_image 0 True)\<lparr>image_pk := None\<rparr>)]
        empty_image_table))"
  using primary_image_invariant
          [where tbl = sample_images and now = 5 and self = "sample_image 2 True"
             and ws = "[(5, (sample_image 0 True)\<lparr>image_pk := None\<rparr>), (6, (sample_image 0 True)\<lparr>image_pk := None\<rparr>)]"]
        primary_image_invariant
          [where tbl = sample_images and now = 5 and self = "sample_image 2 False" and ws = "[]"]
        primary_image_invariant
          [where tbl = sample_images and now = 5
             and self = "(sample_image 3 True)\<lparr>image_pk := None, listing_id := 2\<rparr>" and ws = "[]"]
  by (simp add: image_defs empty_image_table_def)

text \<open>
  C9, as the code has it. No write of the view set clears the flag of another image:
  creating an image (a new one, without a key) leaves every stored image as it is, and
  updating an image leaves every image under another key as it is. An image is made
  primary by an ordinary update of that image that sets the flag and does not move the
  image to another listing: while another image of the same listing is primary the
  update is refused and the table left as it was; when none is, and the user is staff
  or the owner of the image's listing, it is accepted and stores the target, and only
  the target, with the flag set. The update goes by the image key alone: it fails with
  \<open>NotFound\<close> exactly when no image has the key.
\<close>

theorem partial_update_changes_one_image:
  "(fst (partial_update user db now k d tbl) = Inl NotFound
      \<longleftrightarrow> find (\<lambda>r. image_pk r = Some k) (image_rows tbl) = None)
   \<and> (find (\<lambda>r. image_pk r = Some k) (image_rows tbl) = None \<longrightarrow>
        partial_update user db now k d tbl = (Inl NotFound, tbl))
   \<and> (\<forall>r\<in>set (image_rows tbl). image_pk r \<noteq> Some k \<longrightarrow>
        r \<in> set (image_rows (snd (partial_update user db now k d tbl))))
   \<and> (image_pk data = None \<longrightarrow>
        (\<forall>r\<in>set (image_rows tbl).
           r \<in> set (image_rows (snd (perform_create user listing now data tbl)))))
   \<and> (find (\<lambda>r. image_pk r = Some k) (image_rows tbl) = Some obj
        \<and> data_is_primary d = Some True \<and> data_listing d = None
        \<and> (\<exists>r\<in>set (image_rows tbl). image_pk r \<noteq> Some k \<and> listing_id r = listing_id obj
               \<and> is_primary r)
      \<longrightarrow> (\<exists>e. partial_update user db now k d tbl = (Inl e, tbl)))
   \<and> (find (\<lambda>r. image_pk r = Some k) (image_rows tbl) = Some obj
        \<and> listing_rows db (listing_id obj) = Some l
        \<and> (is_staff user \<or> owner_id l = Some (user_id user))
        \<and> data_is_primary d = Some True \<and> data_listing d = None
        \<and> \<not> (\<exists>r\<in>set (image_rows tbl). image_pk r \<noteq> Some k \<and> listing_id r = listing_id obj
               \<and> is_primary r)
      \<longrightarrow> partial_update user db now k d tbl
            = (Inr (serializer_update obj d),
               tbl\<lparr>image_rows :=
                     map (\<lambda>r. if image_pk r = Some k then serializer_update obj d else r)
                       (image_rows tbl)\<rparr>)
          \<and> is_primary (serializer_update obj d)
          \<and> image_pk (serializer_update obj d) = Some k)
   \<and> (fst (partial_update user db now k d tbl) = Inr obj' \<longrightarrow>
        obj' \<in> set (image_rows (snd (partial_update user db now k d tbl)))
        \<and> image_pk obj' = Some k
        \<and> (\<forall>b. data_is_primary d = Some b \<longrightarrow> is_primary obj' = b))"
proof -
  let ?res = "partial_update user db now k d tbl"
  have n: "fst ?res = Inl NotFound
      \<longleftrightarrow> find (\<lambda>r. image_pk r = Some k) (image_rows tbl) = None"
    by (rule partial_update_not_found_iff)
  have a: "find (\<lambda>r. image_pk r = Some k) (image_rows tbl) = None \<longrightarrow> ?res = (Inl NotFound, tbl)"
    by (simp add: partial_update_missing)
  have b: "\<forall>r\<in>set (image_rows tbl). image_pk r \<noteq> Some k \<longrightarrow> r \<in> set (image_rows (snd ?res))"
  proof (intro ballI impI)
    fix r assume r: "r \<in> set (image_rows tbl)" "image_pk r \<noteq> Some k"
    from partial_update_cases [of user db now k d tbl]
    show "r \<in> set (image_rows (snd ?res))"
    proof
      assume "\<exists>e. ?res = (Inl e, tbl)"
      with r show ?thesis by auto
    next
      assume "\<exists>obj. find (\<lambda>r. image_pk r = Some k) (image_rows tbl) = Some obj
        \<and> unique_primary_listing_image (image_rows tbl) (serializer_update obj d)
        \<and> ?res = (Inr (serializer_update obj d),
             tbl\<lparr>image_rows :=
                   map (\<lambda>r. if image_pk r = Some k then serializer_update obj d else r)
                     (image_rows tbl)\<rparr>)"
      then obtain obj where
        "?res = (Inr (serializer_update obj d),
             tbl\<lparr>image_rows :=
                   map (\<lambda>r. if image_pk r = Some k then serializer_update obj d else r)
                     (image_rows tbl)\<rparr>)"
        by blast
      moreover from r
      have "r \<in> (\<lambda>r. if image_pk r = Some k then serializer_update obj d else r) ` set (image_rows tbl)"
        by force
      ultimately show ?thesis by simp
    qed
  qed
  have pc: "image_pk data = None \<longrightarrow>
        (\<forall>r\<in>set (image_rows tbl).
           r \<in> set (image_rows (snd (perform_create user listing now data tbl))))"
    using perform_create_keeps_rows [of data _ tbl user listing now] by blast
  have c: "find (\<lambda>r. image_pk r = Some k) (image_rows tbl) = Some obj
        \<and> data_is_primary d = Some True \<and> data_listing d = None
        \<and> (\<exists>r\<in>set (image_rows tbl). image_pk r \<noteq> Some k \<and> listing_id r = listing_id obj
               \<and> is_primary r)
      \<longrightarrow> (\<exists>e. ?res = (Inl e, tbl))"
  proof
    assume h: "find (\<lambda>r. image_pk r = Some k) (image_rows tbl) = Some obj
        \<and> data_is_primary d = Some True \<and> data_listing d = None
        \<and> (\<exists>r\<in>set (image_rows tbl). image_pk r \<noteq> Some k \<and> listing_id r = listing_id obj
               \<and> is_primary r)"
    then have f: "find (\<lambda>r. image_pk r = Some k) (image_rows tbl) = Some obj" by simp
    then have pk: "image_pk obj = Some k" by (auto simp: find_Some_iff)
    from h pk have nu: "\<not> unique_primary_listing_image (image_rows tbl) (serializer_update obj d)"
      by (auto simp: unique_primary_iff serializer_update_def)
    show "\<exists>e. ?res = (Inl e, tbl)"
    proof (cases "has_object_permission False user db obj = Inr True")
      case True
      from partial_update_permitted [OF f True, of now d] nu show ?thesis by simp
    next
      case False
      from partial_update_denied [OF f False] show ?thesis .
    qed
  qed
  have acc: "find (\<lambda>r. image_pk r = Some k) (image_rows tbl) = Some obj
        \<and> listing_rows db (listing_id obj) = Some l
        \<and> (is_staff user \<or> owner_id l = Some (user_id user))
        \<and> data_is_primary d = Some True \<and> data_listing d = None
        \<and> \<not> (\<exists>r\<in>set (image_rows tbl). image_pk r \<noteq> Some k \<and> listing_id r = listing_id obj
               \<and> is_primary r)
      \<longrightarrow> ?res
            = (Inr (serializer_update obj d),
               tbl\<lparr>image_rows :=
                     map (\<lambda>r. if image_pk r = Some k then serializer_update obj d else r)
                       (image_rows tbl)\<rparr>)
          \<and> is_primary (serializer_update obj d)
          \<and> image_pk (serializer_update obj d) = Some k"
  proof
    assume h: "find (\<lambda>r. image_pk r = Some k) (image_rows tbl) = Some obj
        \<and> listing_rows db (listing_id obj) = Some l
        \<and> (is_staff user \<or> owner_id l = Some (user_id user))
        \<and> data_is_primary d = Some True \<and> data_listing d = None
        \<and> \<not> (\<exists>r\<in>set (image_rows tbl). image_pk r \<noteq> Some k \<and> listing_id r = listing_id obj
               \<and> is_primary r)"
    then have f: "find (\<lambda>r. image_pk r = Some k) (image_rows tbl) = Some obj" by simp
    then have pk: "image_pk obj = Some k" by (auto simp: find_Some_iff)
    from h have p: "has_object_permission False user db obj = Inr True"
      using has_object_permission_owner [of db obj l user] by blast
    from h pk have u: "unique_primary_listing_image (image_rows tbl) (serializer_update obj d)"
      by (auto simp: unique_primary_iff serializer_update_def)
    from h have ip: "is_primary (serializer_update obj d)"
      by (simp add: serializer_update_def)
    from partial_update_permitted [OF f p, of now d] u ip pk
    show "?res
            = (Inr (serializer_update obj d),
               tbl\<lparr>image_rows :=
                     map (\<lambda>r. if image_pk r = Some k then serializer_update obj d else r)
                       (image_rows tbl)\<rparr>)
          \<and> is_primary (serializer_update obj d)
          \<and> image_pk (serializer_update obj d) = Some k"
      by (simp add: serializer_update_pk)
  qed
  have e: "fst ?res = Inr obj' \<longrightarrow>
        obj' \<in> set (image_rows (snd ?res)) \<and> image_pk obj' = Some k
        \<and> (\<forall>b. data_is_primary d = Some b \<longrightarrow> is_primary obj' = b)"
  proof
    assume ok: "fst ?res = Inr obj'"
    from partial_update_cases [of user db now k d tbl] ok
    obtain obj where f: "find (\<lambda>r. image_pk r = Some k) (image_rows tbl) = Some obj"
      and res: "?res = (Inr (serializer_update obj d),
             tbl\<lparr>image_rows :=
                   map (\<lambda>r. if image_pk r = Some k then serializer_update obj d else r)
                     (image_rows tbl)\<rparr>)"
      by auto
    from f have o: "image_pk obj = Some k" "obj \<in> set (image_rows tbl)"
      by (auto simp: find_Some_iff)
    from ok res have eq: "obj' = serializer_update obj d" by simp
    from o have "serializer_update obj d
        \<in> (\<lambda>r. if image_pk r = Some k then serializer_update obj d else r) ` set (image_rows tbl)"
      by force
    with res eq have "obj' \<in> set (image_rows (snd ?res))" by simp
    moreover from eq o have "image_pk obj' = Some k" by (simp add: serializer_update_pk)
    moreover from eq have "\<forall>b. data_is_primary d = Some b \<longrightarrow> is_primary obj' = b"
      by (simp add: serializer_update_def)
    ultimately show "obj' \<in> set (image_rows (snd ?res)) \<and> image_pk obj' = Some k
        \<and> (\<forall>b. data_is_primary d = Some b \<longrightarrow> is_primary obj' = b)"
      by blast
  qed
  from n a b pc c acc e show ?thesis by blast
qed

theorem partial_update_changes_one_image_witness:
  "partial_update sample_owner sample_db_two 5 2 make_primary sample_images_plain
     = (Inr (sample_image 2 True),
        sample_images_plain\<lparr>image_rows := [sample_image 1 False, sample_image 2 True]\<rparr>)
   \<and> partial_update sample_owner sample_db_two 5 2 make_primary sample_images
     = (Inl IntegrityError, sample_images)
   \<and> partial_update sample_owner sample_db_two 5 7 make_primary sample_images
     = (Inl NotFound, sample_images)
   \<and> sample_image 2 False
       \<in> set (image_rows (snd (partial_update sample_owner sample_db_two 5 1 make_primary
                                sample_images)))
   \<and> sample_image 1 True
       \<in> set (image_rows (snd (perform_create sample_owner (sample_row ACTIVE (Some 15000)) 5
                ((sample_image 0 False)\<lparr>image_pk := None\<rparr>) sample_images)))"
  using partial_update_changes_one_image
          [where user = sample_owner and db = sample_db_two
             and now = 5 and k = 2 and d = make_primary and tbl = sample_images_plain
             and obj = "sample_image 2 False" and obj' = "sample_image 2 True"
             and l = "sample_row ACTIVE (Some 15000)"
             and data = "(sample_image 0 False)\<lparr>image_pk := None\<rparr>"
             and listing = "sample_row ACTIVE (Some 15000)"]
        partial_update_changes_one_image
          [where user = sample_owner and db = sample_db_two
             and now = 5 and k = 2 and d = make_primary and tbl = sample_images
             and obj = "sample_image 2 False" and obj' = "sample_image 2 True"
             and l = "sample_row ACTIVE (Some 15000)"
             and data = "(sample_image 0 False)\<lparr>image_pk := None\<rparr>"
             and listing = "sample_row ACTIVE (Some 15000)"]
        partial_update_changes_one_image
          [where user = sample_owner and db = sample_db_two
             and now = 5 and k = 7 and d = make_primary and tbl = sample_images
             and obj = "sample_image 2 False" and obj' = "sample_image 2 True"
             and l = "sample_row ACTIVE (Some 15000)"
             and data = "(sample_image 0 False)\<lparr>image_pk := None\<rparr>"
             and listing = "sample_row ACTIVE (Some 15000)"]
        partial_update_changes_one_image
          [where user = sample_owner and db = sample_db_two
             and now = 5 and k = 1 and d = make_primary and tbl = sample_images
             and obj = "sample_image 1 True" and obj' = "sample_image 1 True"
             and l = "sample_row ACTIVE (Some 15000)"
             and data = "(sample_image 0 False)\<lparr>image_pk := None\<rparr>"
             and listing = "sample_row ACTIVE (Some 15000)"]
  by (simp add: image_defs sample_defs image_sample_defs perform_create_def)

text \<open>
  C9 as stated fails. With image 1 of listing 1 primary, the owner's request to make
  image 2 primary is refused and image 1 is still the primary one. And image 3 does
  not belong to listing 1, yet a request that names listing 1 for it is not answered
  with \<open>NotFound\<close>, and the request on image 3 alone is accepted.
\<close>

theorem set_primary_counterexample:
  "partial_update sample_owner sample_db_two 5 2 make_primary sample_images_two
     = (Inl IntegrityError, sample_images_two)
   \<and> map is_primary (image_rows sample_images_two) = [True, False, False]
   \<and> map listing_id (image_rows sample_images_two) = [1, 1, 2]
   \<and> partial_update sample_owner sample_db_two 5 3 (make_primary_in 1) sample_images_two
     = (Inl IntegrityError, sample_images_two)
   \<and> fst (partial_update sample_owner sample_db_two 5 3 make_primary sample_images_two)
     = Inr ((sample_image 3 True)\<lparr>listing_id := 2\<rparr>)"
  by (simp add: image_defs sample_defs image_sample_defs)

end
